theory Spec2Isabelle
  imports Main "HOL-Library.Word"
begin

chapter \<open>Baked Baker: the instance supervisor and the request router\<close>

text \<open>
  The development follows the two packages of the repository:
  \<^item> package \<open>versions\<close> discovers the embedded binaries, launches one process per
    version and builds the mapping from versions to addresses;
  \<^item> package \<open>http\<close> resolves a request body to a version and a payload and forwards
    the payload to the mapped address.
  The Go standard library (\<open>path\<close>, \<open>fmt\<close>), the JSON library, the file system, the
  operating system and the HTTP client are outside the repository. The pure ones are
  modelled from their documentation; the effectful ones are parameters of the model.
\<close>

section \<open>Library functions the code calls\<close>

subsection \<open>\<open>path.Join\<close> and \<open>path.Clean\<close>\<close>

text \<open>
  \<open>path.Clean\<close> returns the shortest path name equivalent to its argument by purely
  lexical processing: it replaces multiple slashes with a single slash, eliminates each
  \<open>.\<close> element, eliminates each inner \<open>..\<close> element along with the non-\<open>..\<close> element
  that precedes it, and eliminates \<open>..\<close> elements that begin a rooted path. The result
  ends in a slash only if it is the root; an empty result is \<open>.\<close>.
  \<open>path.Join\<close> joins the non-empty elements with slashes and cleans the result; it
  returns the empty string if all elements are empty. On the platforms the program
  runs on, \<open>filepath.Join\<close> is the same function.
\<close>

fun intercalate :: "string \<Rightarrow> string list \<Rightarrow> string" where
  "intercalate sep [] = []"
| "intercalate sep [x] = x"
| "intercalate sep (x # y # zs) = x @ sep @ intercalate sep (y # zs)"

fun splitSlash :: "string \<Rightarrow> string list" where
  "splitSlash [] = [[]]"
| "splitSlash (c # cs) =
     (if c = CHR ''/'' then [] # splitSlash cs
      else (case splitSlash cs of [] \<Rightarrow> [[c]] | x # xs \<Rightarrow> (c # x) # xs))"

fun cleanElems :: "bool \<Rightarrow> string list \<Rightarrow> string list \<Rightarrow> string list" where
  "cleanElems rooted out [] = rev out"
| "cleanElems rooted out (e # es) =
     (if e = [] \<or> e = ''.'' then cleanElems rooted out es
      else if e = ''..'' then
        (case out of
           [] \<Rightarrow> if rooted then cleanElems rooted [] es else cleanElems rooted [''..''] es
         | t # out' \<Rightarrow>
             if t = ''..'' then cleanElems rooted (''..'' # out) es
             else cleanElems rooted out' es)
      else cleanElems rooted (e # out) es)"

definition Clean :: "string \<Rightarrow> string" where
  "Clean p =
     (if p = [] then ''.''
      else
        (let rooted = (hd p = CHR ''/'');
             out = (if rooted then ''/'' else []) @ intercalate ''/'' (cleanElems rooted [] (splitSlash p))
         in if out = [] then ''.'' else out))"

definition Join :: "string list \<Rightarrow> string" where
  "Join elem =
     (let nonempty = filter (\<lambda>e. e \<noteq> []) elem
      in if nonempty = [] then [] else Clean (intercalate ''/'' nonempty))"

text \<open>
  Two predicates on paths: a string with two slashes in a row, and a path element that
  is not empty and holds no slash.
\<close>

fun hasDoubleSlash :: "string \<Rightarrow> bool" where
  "hasDoubleSlash (a # b # cs) = ((a = CHR ''/'' \<and> b = CHR ''/'') \<or> hasDoubleSlash (b # cs))"
| "hasDoubleSlash _ = False"

definition plain :: "string \<Rightarrow> bool" where
  "plain e = (e \<noteq> [] \<and> CHR ''/'' \<notin> set e)"

subsection \<open>\<open>fmt.Sprintf("%d", n)\<close>\<close>

definition digitChar :: "nat \<Rightarrow> char" where
  "digitChar d = ''0123456789'' ! d"

fun decimal :: "nat \<Rightarrow> string" where
  "decimal n = (if n < 10 then [digitChar n] else decimal (n div 10) @ [digitChar (n mod 10)])"

declare decimal.simps [simp del]

definition itoa :: "int \<Rightarrow> string" where
  "itoa i = (if i < 0 then CHR ''-'' # decimal (nat (- i)) else decimal (nat i))"

section \<open>Package versions\<close>

subsection \<open>Versions and the mapping\<close>

text \<open>
  \<^verbatim>\<open>type Version string\<close>. A Go string is a sequence of bytes, as \<^typ>\<open>string\<close> is.
\<close>

type_synonym Version = string

text \<open>
  \<^verbatim>\<open>func (v Version) validate() error { return nil }\<close>; the body holds the
  comment "Some detection logic here" and nothing else.
\<close>

definition validate :: "Version \<Rightarrow> string option" where
  "validate v = None"

text \<open>\<^verbatim>\<open>var Latest = Version("latest")\<close>\<close>

definition Latest :: Version where
  "Latest = ''latest''"

text \<open>
  \<^verbatim>\<open>type Mapping struct { versions map[Version]string }\<close>. A nil map (the field of
  \<^verbatim>\<open>Mapping{}\<close>) reads like an empty one.
\<close>

record Mapping =
  versions :: "Version \<rightharpoonup> string"

text \<open>
  \<^verbatim>\<open>func (m Mapping) Base(v Version) string { return m.versions[v] }\<close>: reading a
  missing key of a Go map gives the zero value, the empty string. "If this is empty
  string, the version is not found."
\<close>

definition Base :: "Mapping \<Rightarrow> Version \<Rightarrow> string" where
  "Base m v = (case versions m v of None \<Rightarrow> [] | Some a \<Rightarrow> a)"

section \<open>Package http: the request router\<close>

subsection \<open>Data\<close>

text \<open>
  \<^verbatim>\<open>type VersionedReq[T any] struct { ABVersion versions.Version; Req T }\<close>
\<close>

record 'T VersionedReq =
  ABVersion :: Version
  Req :: 'T

text \<open>
  The errors a JSON call can report. The router only distinguishes "error" from
  "no error" and wraps the error it was given.
\<close>

datatype json_error = SyntaxError | InvalidUTF8 | TypeMismatch | DuplicateName | Unsupported

text \<open>
  The errors of package http, one constructor per \<^verbatim>\<open>fmt.Errorf\<close> of the source:
  \<^item> \<open>EmptyBody\<close>: "empty body"
  \<^item> \<open>UnmarshalVersioned\<close>: "could not unmarshal our the body content to VersionedReq: %w"
  \<^item> \<open>ReqMissing\<close>: "must provide .Req if .ABVersion is set"
  \<^item> \<open>UnmarshalConfig\<close>: "could not unmarshal our the body content to GetNodeBootstrapDataRequest: %w"
  \<^item> \<open>InvalidRequest\<close>: "must provide a valid request"
  \<^item> \<open>VersionMissing\<close>: "must provide a version"
  \<^item> \<open>VersionNotFound\<close>: "could not find agent baker version(%s) in our mapping: %w"
  \<^item> \<open>MarshalConfig\<close>: "could not marshal the config to send to agent baker: %w"
  \<^item> \<open>SendFailed\<close>: "could not send the request to the agent: %w"
  \<^item> \<open>BadStatus\<close>: "the agent returned a non-200 status code: %d"
\<close>

datatype http_error =
    EmptyBody
  | UnmarshalVersioned json_error
  | ReqMissing
  | UnmarshalConfig json_error
  | InvalidRequest
  | VersionMissing
  | VersionNotFound Version
  | MarshalConfig json_error
  | SendFailed string
  | BadStatus int

text \<open>
  \<^verbatim>\<open>versionedRequest[T any]\<close> is generic in the payload type \<open>T\<close>. What the package
  uses of \<open>T\<close> is \<^verbatim>\<open>json.Unmarshal\<close> at the types \<^verbatim>\<open>VersionedReq[T]\<close> and \<open>T\<close>,
  \<^verbatim>\<open>reflect.ValueOf(x).IsZero()\<close> at \<open>T\<close>, and \<^verbatim>\<open>json.Marshal\<close> at \<open>T\<close>; a client
  that pins a version uses \<^verbatim>\<open>json.Marshal\<close> at \<^verbatim>\<open>VersionedReq[T]\<close>. These
  operations are the fields of the record below: a payload type is given by what the
  program can do with it.

  \<^verbatim>\<open>reflect.ValueOf(x)\<close> of a nil interface value is the invalid \<^verbatim>\<open>reflect.Value\<close>, and
  \<^verbatim>\<open>IsZero\<close> panics on it. So at an interface type \<open>T\<close> the zero test has no answer
  for the value nil: \<open>IsZero\<close> returns \<open>None\<close> where the call panics.
\<close>

record 'T payloadType =
  unmarshalVersioned :: "string \<Rightarrow> json_error + 'T VersionedReq"
  unmarshalT :: "string \<Rightarrow> json_error + 'T"
  marshalT :: "'T \<Rightarrow> json_error + string"
  marshalVersioned :: "'T VersionedReq \<Rightarrow> json_error + string"
  IsZero :: "'T \<Rightarrow> bool option"

text \<open>
  The inbound request as the handlers read it from \<^verbatim>\<open>*fiber.Ctx\<close>:
  \<^verbatim>\<open>c.Path()\<close>, \<^verbatim>\<open>c.Request().Header\<close> (in the order \<^verbatim>\<open>VisitAll\<close> visits it) and
  \<^verbatim>\<open>c.Body()\<close>.
\<close>

record Ctx =
  Path :: string
  Header :: "(string \<times> string) list"
  Body :: string

text \<open>
  The outbound request that \<^verbatim>\<open>fiber.Post(url)\<close>, \<^verbatim>\<open>agent.Body\<close> and
  \<^verbatim>\<open>agent.Request().Header.Add\<close> build.
\<close>

record AgentRequest =
  HTTPMethod :: string
  URL :: string
  ReqHeader :: "(string \<times> string) list"
  ReqBody :: string

text \<open>
  \<^verbatim>\<open>agent.Bytes()\<close> sends the request and returns the status code, the body and the
  errors. The network and the backend are a parameter of the model.
\<close>

type_synonym Client = "AgentRequest \<Rightarrow> int \<times> string \<times> string list"

text \<open>\<^verbatim>\<open>type Server struct { app *fiber.App; mapping versions.Mapping }\<close>\<close>

record Server =
  mapping :: Mapping

subsection \<open>Dual-format resolution\<close>

text \<open>
  A call either returns or panics; a panic in \<^verbatim>\<open>versionedRequest\<close> unwinds through
  the handler that called it.
\<close>

datatype 'a outcome = Panic | Return 'a

text \<open>
  \<^verbatim>\<open>func versionedRequest[T any](body []byte) (versions.Version, T, error)\<close>.
  On every error path the source returns \<^verbatim>\<open>"", emptyT, err\<close>; the model returns the
  error alone (\<open>Inl\<close>).
\<close>

definition versionedRequest :: "'T payloadType \<Rightarrow> string \<Rightarrow> (http_error + (Version \<times> 'T)) outcome" where
  "versionedRequest T body =
     (if length body = 0 then Return (Inl EmptyBody)
      else case unmarshalVersioned T body of
        Inl err \<Rightarrow> Return (Inl (UnmarshalVersioned err))
      | Inr versioned \<Rightarrow>
          (case IsZero T (Req versioned) of
             None \<Rightarrow> Panic
           | Some True \<Rightarrow>
               if ABVersion versioned \<noteq> [] then Return (Inl ReqMissing)
               else (case unmarshalT T body of
                       Inl err \<Rightarrow> Return (Inl (UnmarshalConfig err))
                     | Inr config \<Rightarrow>
                         (case IsZero T config of
                            None \<Rightarrow> Panic
                          | Some True \<Rightarrow> Return (Inl InvalidRequest)
                          | Some False \<Rightarrow> Return (Inr (Latest, config))))
           | Some False \<Rightarrow>
               if ABVersion versioned = [] then Return (Inl VersionMissing)
               else Return (Inr (ABVersion versioned, Req versioned))))"

subsection \<open>Forwarding\<close>

text \<open>
  \<^verbatim>\<open>func sendToAgentBaker(c *fiber.Ctx, base string, body []byte) error\<close>.
  The model returns what the handler hands back (the error, or the body passed to
  \<^verbatim>\<open>c.Send\<close>) together with the outbound requests it issued.
\<close>

definition sendToAgentBaker :: "Client \<Rightarrow> Ctx \<Rightarrow> string \<Rightarrow> string \<Rightarrow> (http_error + string) \<times> AgentRequest list" where
  "sendToAgentBaker client c base body =
     (let agent = \<lparr>HTTPMethod = ''POST'', URL = Join [base, Path c], ReqHeader = [], ReqBody = []\<rparr>;
          agent = agent\<lparr>ReqBody := body\<rparr>;
          agent = foldl (\<lambda>a (key, val). a\<lparr>ReqHeader := ReqHeader a @ [(key, val)]\<rparr>) agent (Header c)
      in case client agent of
           (status, body, errs) \<Rightarrow>
             (if length errs > 0 then Inl (SendFailed (hd errs))
              else if status \<noteq> 200 then Inl (BadStatus status)
              else Inr body,
              [agent]))"

text \<open>
  \<^verbatim>\<open>func (s *Server) bootstrapData(c *fiber.Ctx) error\<close>, at the payload type
  \<^verbatim>\<open>datamodel.GetNodeBootstrapDataRequest\<close> (a type of the proxied service, the first
  argument of the model).
\<close>

definition bootstrapData :: "'T payloadType \<Rightarrow> Client \<Rightarrow> Server \<Rightarrow> Ctx \<Rightarrow> ((http_error + string) \<times> AgentRequest list) outcome" where
  "bootstrapData T client s c =
     (case versionedRequest T (Body c) of
        Panic \<Rightarrow> Panic
      | Return (Inl err) \<Rightarrow> Return (Inl err, [])
      | Return (Inr (ver, config)) \<Rightarrow>
          (let base = Base (mapping s) ver
           in if base = [] then Return (Inl (VersionNotFound ver), [])
              else case marshalT T config of
                Inl err \<Rightarrow> Return (Inl (MarshalConfig err), [])
              | Inr out \<Rightarrow> Return (sendToAgentBaker client c base out)))"

text \<open>
  \<^verbatim>\<open>func (s *Server) latestConfig(c *fiber.Ctx) error\<close> and
  \<^verbatim>\<open>func (s *Server) distroConfig(c *fiber.Ctx) error\<close>, both at the payload type
  \<^verbatim>\<open>datamodel.GetLatestSigImageConfigRequest\<close>.
\<close>

definition latestConfig :: "'T payloadType \<Rightarrow> Client \<Rightarrow> Server \<Rightarrow> Ctx \<Rightarrow> ((http_error + string) \<times> AgentRequest list) outcome" where
  "latestConfig T client s c =
     (case versionedRequest T (Body c) of
        Panic \<Rightarrow> Panic
      | Return (Inl err) \<Rightarrow> Return (Inl err, [])
      | Return (Inr (ver, config)) \<Rightarrow>
          (let base = Base (mapping s) ver
           in if base = [] then Return (Inl (VersionNotFound ver), [])
              else case marshalT T config of
                Inl err \<Rightarrow> Return (Inl (MarshalConfig err), [])
              | Inr out \<Rightarrow> Return (sendToAgentBaker client c base out)))"

definition distroConfig :: "'T payloadType \<Rightarrow> Client \<Rightarrow> Server \<Rightarrow> Ctx \<Rightarrow> ((http_error + string) \<times> AgentRequest list) outcome" where
  "distroConfig T client s c =
     (case versionedRequest T (Body c) of
        Panic \<Rightarrow> Panic
      | Return (Inl err) \<Rightarrow> Return (Inl err, [])
      | Return (Inr (ver, config)) \<Rightarrow>
          (let base = Base (mapping s) ver
           in if base = [] then Return (Inl (VersionNotFound ver), [])
              else case marshalT T config of
                Inl err \<Rightarrow> Return (Inl (MarshalConfig err), [])
              | Inr out \<Rightarrow> Return (sendToAgentBaker client c base out)))"

section \<open>Package versions: discovery and launch\<close>

subsection \<open>Data\<close>

text \<open>\<^verbatim>\<open>type versionPath struct { version Version; bin []byte; addr string }\<close>\<close>

record versionPath =
  version :: Version
  bin :: string
  addr :: string

text \<open>
  The file system interface \<^verbatim>\<open>binFS\<close> (\<^verbatim>\<open>fs.ReadDirFS\<close> and
  \<^verbatim>\<open>fs.ReadFileFS\<close>); of a directory entry the code reads \<^verbatim>\<open>Name()\<close> and
  \<^verbatim>\<open>IsDir()\<close>. An error is its message.
\<close>

record dirEntry =
  Name :: string
  IsDir :: bool

record binFS =
  ReadDir :: "string \<Rightarrow> string + dirEntry list"
  ReadFile :: "string \<Rightarrow> string + string"

text \<open>
  What \<^verbatim>\<open>spawnVersions\<close> asks of the operating system: \<^verbatim>\<open>os.TempDir()\<close>,
  \<^verbatim>\<open>os.WriteFile(name, data, 0755)\<close> and \<^verbatim>\<open>exec.Command(name, arg...).Start()\<close>;
  \<open>None\<close> is the nil error.
\<close>

record OS =
  TempDir :: string
  WriteFile :: "string \<Rightarrow> string \<Rightarrow> string option"
  Start :: "string \<Rightarrow> string list \<Rightarrow> string option"

text \<open>
  The errors of package versions, one constructor per \<^verbatim>\<open>fmt.Errorf\<close>:
  \<^item> \<open>ReadDirFailed\<close>: "could not read the versions directory: %v"
  \<^item> \<open>ValidateFailed\<close>: "embed filesystem had version that did not validate: %v"
  \<^item> \<open>ReadFileFailed\<close>: "could not read agentbaker file for version(%v): %v"
  \<^item> \<open>WriteFailed\<close>: "could not write agentbaker binary file(%v): %v"
  \<^item> \<open>StartFailed\<close>: "could not start agentbaker binary(%v): %v"
\<close>

datatype versions_error =
    ReadDirFailed string
  | ValidateFailed string
  | ReadFileFailed Version string
  | WriteFailed Version string
  | StartFailed Version string

subsection \<open>Discovery\<close>

text \<open>
  \<^verbatim>\<open>func extractBinaries(rdfs binFS) ([]versionPath, error)\<close>. The directory is
  listed through the argument \<open>rdfs\<close>; the files are read from the package variable
  \<^verbatim>\<open>binariesFS\<close>, the second argument of the model. \<open>extractLoop\<close> is the
  \<^verbatim>\<open>for _, fn := range versions\<close> loop with its accumulator \<open>verPaths\<close>.
\<close>

fun extractLoop :: "binFS \<Rightarrow> dirEntry list \<Rightarrow> versionPath list \<Rightarrow> versions_error + versionPath list" where
  "extractLoop binariesFS [] verPaths = Inr verPaths"
| "extractLoop binariesFS (fn # rest) verPaths =
     (if \<not> IsDir fn then extractLoop binariesFS rest verPaths
      else
        (let ver = Name fn
         in case validate ver of
              Some err \<Rightarrow> Inl (ValidateFailed err)
            | None \<Rightarrow>
                (let binPath = Join [Name fn, ''agentbaker'']
                 in case ReadFile binariesFS binPath of
                      Inl err \<Rightarrow> Inl (ReadFileFailed ver err)
                    | Inr content \<Rightarrow>
                        extractLoop binariesFS rest
                          (verPaths @ [\<lparr>version = ver, bin = content, addr = []\<rparr>]))))"

definition extractBinaries :: "binFS \<Rightarrow> binFS \<Rightarrow> versions_error + versionPath list" where
  "extractBinaries rdfs binariesFS =
     (case ReadDir rdfs ''.'' of
        Inl err \<Rightarrow> Inl (ReadDirFailed err)
      | Inr entries \<Rightarrow> extractLoop binariesFS entries [])"

subsection \<open>Launch\<close>

text \<open>
  The state the goroutines of \<^verbatim>\<open>spawnVersions\<close> share: the counter
  \<^verbatim>\<open>ports\<close> (an \<^verbatim>\<open>atomic.Int32\<close>), the slice \<^verbatim>\<open>verPaths\<close> they update in
  place (\<open>paths\<close>), and the errors the wait group collects. Two traces record what the
  goroutines did: \<open>allocated\<close> holds the values of \<^verbatim>\<open>ports.Add(1) - 1\<close> in the
  order of the calls, \<open>commands\<close> every \<^verbatim>\<open>exec.Command(name, arg...).Start()\<close>
  issued.
\<close>

record spawnState =
  ports :: "32 word"
  paths :: "versionPath list"
  errs :: "versions_error list"
  allocated :: "32 word list"
  commands :: "(string \<times> string list) list"

text \<open>\<^verbatim>\<open>fmt.Sprintf("http://localhost:%d", port)\<close> at a port of type \<^verbatim>\<open>int32\<close>.\<close>

definition localhostAddr :: "32 word \<Rightarrow> string" where
  "localhostAddr port = ''http://localhost:'' @ itoa (sint port)"

text \<open>
  The body of the goroutine started for index \<open>i\<close> with its copy \<open>vp\<close> of
  \<^verbatim>\<open>verPaths[i]\<close>. The source passes an undeclared \<open>p\<close> to \<^verbatim>\<open>os.WriteFile\<close>;
  the model takes the path \<open>fp\<close> computed on the line before, which is also the path
  handed to \<^verbatim>\<open>exec.Command\<close>. \<^verbatim>\<open>ports.Add(1)\<close> returns the new value of the
  counter.
\<close>

definition launch :: "OS \<Rightarrow> string \<Rightarrow> nat \<Rightarrow> versionPath \<Rightarrow> spawnState \<Rightarrow> spawnState" where
  "launch os tmpdir i vp st =
     (let fp = Join [tmpdir, version vp]
      in case WriteFile os fp (bin vp) of
           Some err \<Rightarrow> st\<lparr>errs := errs st @ [WriteFailed (version vp) err]\<rparr>
         | None \<Rightarrow>
             (let added = ports st + 1;
                  st = st\<lparr>ports := added\<rparr>;
                  port = added - 1;
                  st = st\<lparr>allocated := allocated st @ [port]\<rparr>;
                  vp = vp\<lparr>addr := localhostAddr port\<rparr>;
                  st = st\<lparr>commands := commands st @ [(fp, [''-port'', addr vp])]\<rparr>
              in case Start os fp [''-port'', addr vp] of
                   Some err \<Rightarrow> st\<lparr>errs := errs st @ [StartFailed (version vp) err]\<rparr>
                 | None \<Rightarrow> st\<lparr>paths := (paths st)[i := vp]\<rparr>))"

text \<open>
  The goroutines run in parallel. They interact through the counter only: each
  writes its own file and its own element of the slice, and \<^verbatim>\<open>ports.Add\<close> is
  atomic. An execution is therefore determined by the order in which the goroutines
  reach the counter; \<open>sched\<close> lists the indices in that order. A schedule of the loop
  \<^verbatim>\<open>for i, vp := range verPaths\<close> holds every index below \<open>length verPaths\<close> once.
\<close>

definition schedule :: "nat \<Rightarrow> nat list \<Rightarrow> bool" where
  "schedule n sched = (distinct sched \<and> set sched = {..<n})"

fun runSchedule :: "OS \<Rightarrow> string \<Rightarrow> versionPath list \<Rightarrow> nat list \<Rightarrow> spawnState \<Rightarrow> spawnState" where
  "runSchedule os tmpdir verPaths [] st = st"
| "runSchedule os tmpdir verPaths (i # sched) st =
     runSchedule os tmpdir verPaths sched
       (if i < length verPaths then launch os tmpdir i (verPaths ! i) st else st)"

text \<open>
  \<^verbatim>\<open>func spawnVersions(verPaths []versionPath) error\<close> "modifies the versionPath
  slice in place": the model returns the slice together with the error of
  \<^verbatim>\<open>g.Wait()\<close>, which is nil when no goroutine returned an error and an error of
  one of them otherwise (in the model, of the first in the schedule).
\<close>

definition spawnInit :: "versionPath list \<Rightarrow> spawnState" where
  "spawnInit verPaths = \<lparr>ports = 8080, paths = verPaths, errs = [], allocated = [], commands = []\<rparr>"

definition spawnVersions :: "OS \<Rightarrow> nat list \<Rightarrow> versionPath list \<Rightarrow> versionPath list \<times> versions_error option" where
  "spawnVersions os sched verPaths =
     (let tmpdir = TempDir os;
          st = runSchedule os tmpdir verPaths sched (spawnInit verPaths)
      in (paths st, case errs st of [] \<Rightarrow> None | err # _ \<Rightarrow> Some err))"

text \<open>
  The relation between the counter and the two traces that every launch keeps: the
  counter is 8080 plus the number of allocations, the allocations are the values from
  8080 upwards in order, and each command carries the address of its allocation.
\<close>

definition counted :: "spawnState \<Rightarrow> bool" where
  "counted st =
     (ports st = 8080 + of_nat (length (allocated st))
      \<and> allocated st = map (\<lambda>k. 8080 + of_nat k) [0..<length (allocated st)]
      \<and> map snd (commands st) = map (\<lambda>p. [''-port'', localhostAddr p]) (allocated st))"

text \<open>
  What a run without errors has done once the goroutines \<open>served\<close>, in this order,
  have passed the counter: the \<open>j\<close>-th of them holds port 8080 + \<open>j\<close> in its element
  of the slice, and the other elements are untouched.
\<close>

definition placed :: "versionPath list \<Rightarrow> nat list \<Rightarrow> spawnState \<Rightarrow> bool" where
  "placed verPaths served st =
     (length (paths st) = length verPaths
      \<and> ports st = 8080 + of_nat (length served)
      \<and> (\<forall>j < length served.
            paths st ! (served ! j) = (verPaths ! (served ! j))\<lparr>addr := localhostAddr (8080 + of_nat j)\<rparr>)
      \<and> (\<forall>i < length verPaths. i \<notin> set served \<longrightarrow> paths st ! i = verPaths ! i))"

text \<open>
  \<^verbatim>\<open>func New() (Mapping, error)\<close>. The source calls \<^verbatim>\<open>extractBinaries()\<close> without
  its argument; the only file system of the package is \<^verbatim>\<open>binariesFS\<close>.
\<close>

definition New :: "binFS \<Rightarrow> OS \<Rightarrow> nat list \<Rightarrow> Mapping \<times> versions_error option" where
  "New binariesFS os sched =
     (case extractBinaries binariesFS binariesFS of
        Inl err \<Rightarrow> (\<lparr>versions = Map.empty\<rparr>, Some err)
      | Inr verPaths \<Rightarrow>
          (case spawnVersions os sched verPaths of
             (verPaths, Some err) \<Rightarrow> (\<lparr>versions = Map.empty\<rparr>, Some err)
           | (verPaths, None) \<Rightarrow>
               (\<lparr>versions = foldl (\<lambda>m vp. m(version vp \<mapsto> addr vp)) Map.empty verPaths\<rparr>, None)))"


section \<open>Reference payload types\<close>

text \<open>
  Executable instances of \<^typ>\<open>'T payloadType\<close>, used to run the router on concrete
  request bodies: Go structs whose fields are all strings, and an interface type, with
  the JSON library's default behaviour on them. A struct value lists its fields in
  declaration order, each with its name. Text is a sequence of bytes that has to be
  valid UTF-8, in a JSON string and in a Go string that is encoded. One form of JSON
  text is left out: a hexadecimal escape of a character above 127 is reported as
  \<^const>\<open>Unsupported\<close>, never silently accepted or rejected as a syntax error.
\<close>

subsection \<open>JSON text\<close>

datatype json =
    JNull
  | JBool bool
  | JNum string
  | JStr string
  | JArr "json list"
  | JObj "(string \<times> json) list"

text \<open>The double quote and the backslash.\<close>

definition dq :: char where
  "dq = CHR 0x22"

definition bsl :: char where
  "bsl = CHR 0x5C"

definition quoted :: "string \<Rightarrow> string" where
  "quoted s = dq # s @ [dq]"

definition is_ws :: "char \<Rightarrow> bool" where
  "is_ws c = (c = CHR '' '' \<or> c = CHR 0x09 \<or> c = CHR 0x0A \<or> c = CHR 0x0D)"

definition is_digit :: "char \<Rightarrow> bool" where
  "is_digit c = (48 \<le> (of_char c :: nat) \<and> (of_char c :: nat) \<le> 57)"

fun skip_ws :: "string \<Rightarrow> string" where
  "skip_ws [] = []"
| "skip_ws (c # cs) = (if is_ws c then skip_ws cs else c # cs)"

definition hexval :: "char \<Rightarrow> nat option" where
  "hexval c =
     (let n = (of_char c :: nat) in
      if 48 \<le> n \<and> n \<le> 57 then Some (n - 48)
      else if 97 \<le> n \<and> n \<le> 102 then Some (n - 87)
      else if 65 \<le> n \<and> n \<le> 70 then Some (n - 55)
      else None)"

text \<open>Two-character escapes of RFC 8259.\<close>

definition unescape :: "char \<Rightarrow> char option" where
  "unescape e =
     (if e = dq then Some dq
      else if e = bsl then Some bsl
      else if e = CHR ''/'' then Some CHR ''/''
      else if e = CHR ''b'' then Some (CHR 0x08)
      else if e = CHR ''f'' then Some (CHR 0x0C)
      else if e = CHR ''n'' then Some (CHR 0x0A)
      else if e = CHR ''r'' then Some (CHR 0x0D)
      else if e = CHR ''t'' then Some (CHR 0x09)
      else None)"

definition hex4 :: "char \<Rightarrow> char \<Rightarrow> char \<Rightarrow> char \<Rightarrow> nat option" where
  "hex4 a b c d =
     (case (hexval a, hexval b, hexval c, hexval d) of
        (Some w, Some x, Some y, Some z) \<Rightarrow> Some (((w * 16 + x) * 16 + y) * 16 + z)
      | _ \<Rightarrow> None)"

text \<open>Well-formed UTF-8 (Unicode, table 3-7), on the values of the bytes.\<close>

definition cont :: "nat \<Rightarrow> bool" where
  "cont b = (128 \<le> b \<and> b < 192)"

fun utf8 :: "nat list \<Rightarrow> bool" where
  "utf8 [] = True"
| "utf8 (a # bs) =
     (if a < 128 then utf8 bs
      else if 194 \<le> a \<and> a < 224 then
        (case bs of
           b # r \<Rightarrow> cont b \<and> utf8 r
         | _ \<Rightarrow> False)
      else if 224 \<le> a \<and> a < 240 then
        (case bs of
           b # c # r \<Rightarrow>
             cont b \<and> cont c \<and> (if a = 224 then 160 \<le> b else True)
             \<and> (if a = 237 then b < 160 else True) \<and> utf8 r
         | _ \<Rightarrow> False)
      else if 240 \<le> a \<and> a < 245 then
        (case bs of
           b # c # d # r \<Rightarrow>
             cont b \<and> cont c \<and> cont d \<and> (if a = 240 then 144 \<le> b else True)
             \<and> (if a = 244 then b < 144 else True) \<and> utf8 r
         | _ \<Rightarrow> False)
      else False)"

definition validUTF8 :: "string \<Rightarrow> bool" where
  "validUTF8 s = utf8 (map of_char s)"

definition consStr :: "char \<Rightarrow> json_error + (string \<times> string) \<Rightarrow> json_error + (string \<times> string)" where
  "consStr c r = (case r of Inl e \<Rightarrow> Inl e | Inr (s, rest) \<Rightarrow> Inr (c # s, rest))"

fun parse_string :: "string \<Rightarrow> json_error + (string \<times> string)" where
  "parse_string [] = Inl SyntaxError"
| "parse_string (c # cs) =
     (if c = dq then Inr ([], cs)
      else if c = bsl then
        (case cs of
           [] \<Rightarrow> Inl SyntaxError
         | e # cs' \<Rightarrow>
             if e = CHR ''u'' then
               (case cs' of
                  h1 # h2 # h3 # h4 # r \<Rightarrow>
                    (case hex4 h1 h2 h3 h4 of
                       None \<Rightarrow> Inl SyntaxError
                     | Some n \<Rightarrow> if n < 128 then consStr (char_of n) (parse_string r) else Inl Unsupported)
                | _ \<Rightarrow> Inl SyntaxError)
             else
               (case unescape e of
                  None \<Rightarrow> Inl SyntaxError
                | Some d \<Rightarrow> consStr d (parse_string cs')))
      else if (of_char c :: nat) < 32 then Inl SyntaxError
      else consStr c (parse_string cs))"

text \<open>A JSON string: the text up to the closing quote, unescaped, as valid UTF-8.\<close>

definition parse_text :: "string \<Rightarrow> json_error + (string \<times> string)" where
  "parse_text cs =
     (case parse_string cs of
        Inl e \<Rightarrow> Inl e
      | Inr (s, r) \<Rightarrow> if validUTF8 s then Inr (s, r) else Inl InvalidUTF8)"

text \<open>number = [ - ] ( 0 | [1-9][0-9]* ) [ . [0-9]+ ] [ (e|E) [+|-] [0-9]+ ]\<close>

definition parse_number :: "string \<Rightarrow> json_error + (string \<times> string)" where
  "parse_number cs =
     (let neg = (cs \<noteq> [] \<and> hd cs = CHR ''-'');
          r0 = (if neg then tl cs else cs);
          ip = takeWhile is_digit r0;
          r1 = dropWhile is_digit r0;
          hasfrac = (r1 \<noteq> [] \<and> hd r1 = CHR ''.'');
          fp = (if hasfrac then takeWhile is_digit (tl r1) else []);
          r2 = (if hasfrac then dropWhile is_digit (tl r1) else r1);
          hasexp = (r2 \<noteq> [] \<and> (hd r2 = CHR ''e'' \<or> hd r2 = CHR ''E''));
          r3 = (if hasexp then tl r2 else r2);
          hassign = (hasexp \<and> r3 \<noteq> [] \<and> (hd r3 = CHR ''+'' \<or> hd r3 = CHR ''-''));
          r4 = (if hassign then tl r3 else r3);
          ep = (if hasexp then takeWhile is_digit r4 else []);
          r5 = (if hasexp then dropWhile is_digit r4 else r2)
      in if ip = [] \<or> (hd ip = CHR ''0'' \<and> length ip > 1) \<or> (hasfrac \<and> fp = []) \<or> (hasexp \<and> ep = [])
         then Inl SyntaxError
         else Inr (take (length cs - length r5) cs, r5))"

definition parse_literal :: "string \<Rightarrow> json_error + (json \<times> string)" where
  "parse_literal cs =
     (if take 4 cs = ''true'' then Inr (JBool True, drop 4 cs)
      else if take 5 cs = ''false'' then Inr (JBool False, drop 5 cs)
      else if take 4 cs = ''null'' then Inr (JNull, drop 4 cs)
      else Inl SyntaxError)"

text \<open>
  The recursive descent over values, object members and array elements. The first
  argument bounds the number of nested calls; every call consumes a character before
  it calls again, so one more than the length of the text is enough, and running out
  is reported as \<^const>\<open>Unsupported\<close>. A member name that repeats in an object is an
  error, as it is in the library's default configuration.
\<close>

fun parse_value :: "nat \<Rightarrow> string \<Rightarrow> json_error + (json \<times> string)"
  and parse_members :: "nat \<Rightarrow> (string \<times> json) list \<Rightarrow> string \<Rightarrow> json_error + ((string \<times> json) list \<times> string)"
  and parse_elements :: "nat \<Rightarrow> json list \<Rightarrow> string \<Rightarrow> json_error + (json list \<times> string)"
where
  "parse_value 0 cs = Inl Unsupported"
| "parse_value (Suc n) cs =
     (case skip_ws cs of
        [] \<Rightarrow> Inl SyntaxError
      | c # r \<Rightarrow>
          if c = CHR ''{'' then
            (case skip_ws r of
               [] \<Rightarrow> Inl SyntaxError
             | c' # r' \<Rightarrow>
                 if c' = CHR ''}'' then Inr (JObj [], r')
                 else (case parse_members n [] (c' # r') of
                         Inl e \<Rightarrow> Inl e
                       | Inr (ms, r'') \<Rightarrow> Inr (JObj ms, r'')))
          else if c = CHR ''['' then
            (case skip_ws r of
               [] \<Rightarrow> Inl SyntaxError
             | c' # r' \<Rightarrow>
                 if c' = CHR '']'' then Inr (JArr [], r')
                 else (case parse_elements n [] (c' # r') of
                         Inl e \<Rightarrow> Inl e
                       | Inr (js, r'') \<Rightarrow> Inr (JArr js, r'')))
          else if c = dq then
            (case parse_text r of
               Inl e \<Rightarrow> Inl e
             | Inr (s, r') \<Rightarrow> Inr (JStr s, r'))
          else if c = CHR ''-'' \<or> is_digit c then
            (case parse_number (c # r) of
               Inl e \<Rightarrow> Inl e
             | Inr (s, r') \<Rightarrow> Inr (JNum s, r'))
          else parse_literal (c # r))"
| "parse_members 0 acc cs = Inl Unsupported"
| "parse_members (Suc n) acc cs =
     (case skip_ws cs of
        [] \<Rightarrow> Inl SyntaxError
      | c # r \<Rightarrow>
          if c \<noteq> dq then Inl SyntaxError
          else
            (case parse_text r of
               Inl e \<Rightarrow> Inl e
             | Inr (k, r1) \<Rightarrow>
                 (case skip_ws r1 of
                    [] \<Rightarrow> Inl SyntaxError
                  | c1 # r2 \<Rightarrow>
                      if c1 \<noteq> CHR '':'' then Inl SyntaxError
                      else
                        (case parse_value n r2 of
                           Inl e \<Rightarrow> Inl e
                         | Inr (v, r3) \<Rightarrow>
                             if k \<in> fst ` set acc then Inl DuplicateName
                             else
                               (case skip_ws r3 of
                                  [] \<Rightarrow> Inl SyntaxError
                                | c3 # r4 \<Rightarrow>
                                    if c3 = CHR '','' then parse_members n (acc @ [(k, v)]) r4
                                    else if c3 = CHR ''}'' then Inr (acc @ [(k, v)], r4)
                                    else Inl SyntaxError)))))"
| "parse_elements 0 acc cs = Inl Unsupported"
| "parse_elements (Suc n) acc cs =
     (case parse_value n cs of
        Inl e \<Rightarrow> Inl e
      | Inr (v, r) \<Rightarrow>
          (case skip_ws r of
             [] \<Rightarrow> Inl SyntaxError
           | c # r' \<Rightarrow>
               if c = CHR '','' then parse_elements n (acc @ [v]) r'
               else if c = CHR '']'' then Inr (acc @ [v], r')
               else Inl SyntaxError))"

definition json_parse :: "string \<Rightarrow> json_error + json" where
  "json_parse body =
     (case parse_value (Suc (length body)) body of
        Inl e \<Rightarrow> Inl e
      | Inr (j, r) \<Rightarrow> if skip_ws r = [] then Inr j else Inl SyntaxError)"

subsection \<open>Structs of strings\<close>

text \<open>
  Decoding a JSON object into a struct matches member names with field names exactly,
  ignores members that match no field, and leaves fields without a member at their
  zero value; \<open>null\<close> sets a field to its zero value. Any other JSON value where a
  string or an object is expected is a type mismatch.
\<close>

type_synonym strStruct = "(string \<times> string) list"

definition zeroStruct :: "string list \<Rightarrow> strStruct" where
  "zeroStruct fs = map (\<lambda>f. (f, [])) fs"

definition setField :: "string \<Rightarrow> string \<Rightarrow> strStruct \<Rightarrow> strStruct" where
  "setField k s v = map (\<lambda>(f, x). if f = k then (f, s) else (f, x)) v"

fun decodeMembers :: "(string \<times> json) list \<Rightarrow> strStruct \<Rightarrow> json_error + strStruct" where
  "decodeMembers [] v = Inr v"
| "decodeMembers ((k, j) # ms) v =
     (if k \<in> fst ` set v then
        (case j of
           JStr s \<Rightarrow> decodeMembers ms (setField k s v)
         | JNull \<Rightarrow> decodeMembers ms (setField k [] v)
         | _ \<Rightarrow> Inl TypeMismatch)
      else decodeMembers ms v)"

definition decodeStruct :: "string list \<Rightarrow> json \<Rightarrow> json_error + strStruct" where
  "decodeStruct fs j =
     (case j of
        JObj ms \<Rightarrow> decodeMembers ms (zeroStruct fs)
      | JNull \<Rightarrow> Inr (zeroStruct fs)
      | _ \<Rightarrow> Inl TypeMismatch)"

text \<open>
  The envelope \<^verbatim>\<open>VersionedReq[T]\<close> is itself a struct, with the fields \<open>ABVersion\<close> (a
  string) and \<open>Req\<close> (of type \<open>T\<close>, given by its decoder and its zero value).
\<close>

fun decodeEnvelope :: "(json \<Rightarrow> json_error + 'a) \<Rightarrow> (string \<times> json) list \<Rightarrow> 'a VersionedReq \<Rightarrow> json_error + 'a VersionedReq" where
  "decodeEnvelope dec [] v = Inr v"
| "decodeEnvelope dec ((k, j) # ms) v =
     (if k = ''ABVersion'' then
        (case j of
           JStr s \<Rightarrow> decodeEnvelope dec ms (v\<lparr>ABVersion := s\<rparr>)
         | JNull \<Rightarrow> decodeEnvelope dec ms (v\<lparr>ABVersion := []\<rparr>)
         | _ \<Rightarrow> Inl TypeMismatch)
      else if k = ''Req'' then
        (case dec j of
           Inl e \<Rightarrow> Inl e
         | Inr r \<Rightarrow> decodeEnvelope dec ms (v\<lparr>Req := r\<rparr>))
      else decodeEnvelope dec ms v)"

definition decodeVersioned :: "(json \<Rightarrow> json_error + 'a) \<Rightarrow> 'a \<Rightarrow> json \<Rightarrow> json_error + 'a VersionedReq" where
  "decodeVersioned dec zero j =
     (case j of
        JObj ms \<Rightarrow> decodeEnvelope dec ms \<lparr>ABVersion = [], Req = zero\<rparr>
      | JNull \<Rightarrow> Inr \<lparr>ABVersion = [], Req = zero\<rparr>
      | _ \<Rightarrow> Inl TypeMismatch)"

text \<open>
  Encoding writes the fields in declaration order, without white space, and escapes the
  quote, the backslash and the control characters of a string. A string that is not
  valid UTF-8 has no encoding.
\<close>

definition hexdigit :: "nat \<Rightarrow> char" where
  "hexdigit n = (if n < 10 then char_of (48 + n) else char_of (87 + n))"

definition escape_char :: "char \<Rightarrow> string" where
  "escape_char c =
     (if c = dq then [bsl, dq]
      else if c = bsl then [bsl, bsl]
      else if c = CHR 0x08 then [bsl, CHR ''b'']
      else if c = CHR 0x0C then [bsl, CHR ''f'']
      else if c = CHR 0x0A then [bsl, CHR ''n'']
      else if c = CHR 0x0D then [bsl, CHR ''r'']
      else if c = CHR 0x09 then [bsl, CHR ''t'']
      else if (of_char c :: nat) < 32 then
        [bsl, CHR ''u'', CHR ''0'', CHR ''0'', hexdigit (of_char c div 16), hexdigit (of_char c mod 16)]
      else [c])"

definition encodeString :: "string \<Rightarrow> json_error + string" where
  "encodeString s =
     (if validUTF8 s then Inr (quoted (concat (map escape_char s)))
      else Inl InvalidUTF8)"

fun encodeFields :: "strStruct \<Rightarrow> json_error + string list" where
  "encodeFields [] = Inr []"
| "encodeFields ((f, x) # v) =
     (case encodeString f of
        Inl e \<Rightarrow> Inl e
      | Inr n \<Rightarrow>
          (case encodeString x of
             Inl e \<Rightarrow> Inl e
           | Inr y \<Rightarrow>
               (case encodeFields v of
                  Inl e \<Rightarrow> Inl e
                | Inr rest \<Rightarrow> Inr ((n @ '':'' @ y) # rest))))"

definition encodeStruct :: "strStruct \<Rightarrow> json_error + string" where
  "encodeStruct v =
     (case encodeFields v of
        Inl e \<Rightarrow> Inl e
      | Inr ms \<Rightarrow> Inr (''{'' @ intercalate '','' ms @ ''}''))"

definition encodeVersioned :: "('a \<Rightarrow> json_error + string) \<Rightarrow> 'a VersionedReq \<Rightarrow> json_error + string" where
  "encodeVersioned enc e =
     (case encodeString (ABVersion e) of
        Inl err \<Rightarrow> Inl err
      | Inr a \<Rightarrow>
          (case enc (Req e) of
             Inl err \<Rightarrow> Inl err
           | Inr r \<Rightarrow> Inr (''{'' @ quoted ''ABVersion'' @ '':'' @ a @ '','' @ quoted ''Req'' @ '':'' @ r @ ''}'')))"

definition unmarshalWith :: "(json \<Rightarrow> json_error + 'a) \<Rightarrow> string \<Rightarrow> json_error + 'a" where
  "unmarshalWith dec body = (case json_parse body of Inl e \<Rightarrow> Inl e | Inr j \<Rightarrow> dec j)"

text \<open>
  The payload type of a struct with the string fields \<open>fs\<close>. A struct is zero when
  every field is the empty string; the zero test is defined on every struct.
\<close>

definition structType :: "string list \<Rightarrow> strStruct payloadType" where
  "structType fs =
     \<lparr>unmarshalVersioned = unmarshalWith (decodeVersioned (decodeStruct fs) (zeroStruct fs)),
      unmarshalT = unmarshalWith (decodeStruct fs),
      marshalT = encodeStruct,
      marshalVersioned = encodeVersioned encodeStruct,
      IsZero = (\<lambda>v. Some (v = zeroStruct (map fst v)))\<rparr>"

text \<open>
  \<^verbatim>\<open>type Config struct { Type string; Data string }\<close> of \<^verbatim>\<open>TestVersionedRequest\<close>,
  and the bodies of its test table.
\<close>

definition Config :: "strStruct payloadType" where
  "Config = structType [''Type'', ''Data'']"

definition memberStr :: "string \<Rightarrow> string \<Rightarrow> string" where
  "memberStr k v = quoted k @ '': '' @ quoted v"

definition bodyBadJSON :: string where
  "bodyBadJSON = ''{''"

definition bodyVersionOnly :: string where
  "bodyVersionOnly = ''{'' @ quoted ''ABVersion'' @ '':'' @ quoted ''1.0.0'' @ ''}''"

definition bodyRandom :: string where
  "bodyRandom = ''{'' @ memberStr ''Random'' ''data'' @ ''}''"

definition bodyBare :: string where
  "bodyBare = ''{'' @ memberStr ''Type'' ''test'' @ '', '' @ memberStr ''Data'' ''data'' @ ''}''"

definition bodyReqOnly :: string where
  "bodyReqOnly = ''{'' @ quoted ''Req'' @ '':'' @ bodyBare @ ''}''"

definition bodyVersioned :: string where
  "bodyVersioned =
     ''{'' @ quoted ''ABVersion'' @ '':'' @ quoted ''1.0.0'' @ '','' @ quoted ''Req'' @ '':'' @ bodyBare @ ''}''"


text \<open>What \<^const>\<open>Config\<close> values and their envelopes encode to.\<close>

definition structText :: "string \<Rightarrow> string \<Rightarrow> string" where
  "structText t d = ''{'' @ quoted ''Type'' @ '':'' @ quoted t @ '','' @ quoted ''Data'' @ '':'' @ quoted d @ ''}''"

definition envelopeText :: "string \<Rightarrow> string \<Rightarrow> string" where
  "envelopeText v r = ''{'' @ quoted ''ABVersion'' @ '':'' @ quoted v @ '','' @ quoted ''Req'' @ '':'' @ r @ ''}''"



subsection \<open>An interface type\<close>

text \<open>
  \<^verbatim>\<open>fmt.Stringer\<close>, an interface type with a method. \<^verbatim>\<open>json.Unmarshal\<close> has no
  concrete type to store in a nil value of such a type: it leaves nil where the member
  is absent, stores nil for \<open>null\<close> and reports an error for every other JSON value. So
  nil is the one value of the type that the router meets. It is encoded as \<open>null\<close>, and
  its zero test panics.
\<close>

datatype iface = Nil




section \<open>A request and a server to run the handlers on\<close>

text \<open>
  A server whose mapping holds \<open>latest\<close> and \<open>1.0.0\<close> at addresses of the form
  \<^verbatim>\<open>http://localhost:<port>\<close>, a backend that answers every request with status 200,
  and requests to \<^verbatim>\<open>/getnodebootstrapdata\<close>.
\<close>

definition exampleServer :: Server where
  "exampleServer =
     \<lparr>mapping = \<lparr>versions = [''latest'' \<mapsto> ''http://localhost:8080'', ''1.0.0'' \<mapsto> ''http://localhost:8081'']\<rparr>\<rparr>"

definition okClient :: Client where
  "okClient req = (200, ''done'', [])"

definition exampleCtx :: "string \<Rightarrow> Ctx" where
  "exampleCtx body =
     \<lparr>Path = ''/getnodebootstrapdata'', Header = [(''Content-Type'', ''application/json'')], Body = body\<rparr>"

section \<open>Bundles and an operating system to run the supervisor on\<close>

text \<open>
  A bundle with the directories \<open>1.0.0\<close> and \<open>1.1.0\<close> and a file beside them, a bundle
  with a directory whose name is no release tag, and an operating system on which
  every write and every start succeeds.
\<close>

definition exampleFS :: binFS where
  "exampleFS =
     \<lparr>ReadDir = (\<lambda>d. if d = ''.''
                      then Inr [\<lparr>Name = ''1.0.0'', IsDir = True\<rparr>,
                                \<lparr>Name = ''README.md'', IsDir = False\<rparr>,
                                \<lparr>Name = ''1.1.0'', IsDir = True\<rparr>]
                      else Inl ''file does not exist''),
      ReadFile = (\<lambda>p. if p = ''1.0.0/agentbaker'' then Inr ''binary of 1.0.0''
                      else if p = ''1.1.0/agentbaker'' then Inr ''binary of 1.1.0''
                      else Inl ''file does not exist'')\<rparr>"

definition malformedFS :: binFS where
  "malformedFS =
     \<lparr>ReadDir = (\<lambda>d. if d = ''.''
                      then Inr [\<lparr>Name = ''not a version!'', IsDir = True\<rparr>]
                      else Inl ''file does not exist''),
      ReadFile = (\<lambda>p. if p = ''not a version!/agentbaker'' then Inr ''some binary''
                      else Inl ''file does not exist'')\<rparr>"

definition exampleOS :: OS where
  "exampleOS = \<lparr>TempDir = ''/tmp'', WriteFile = (\<lambda>name data. None), Start = (\<lambda>name arg. None)\<rparr>"

text \<open>An operating system that cannot start the binary of \<open>1.1.0\<close>.\<close>

definition failingOS :: OS where
  "failingOS =
     \<lparr>TempDir = ''/tmp'',
      WriteFile = (\<lambda>name data. None),
      Start = (\<lambda>name arg. if name = ''/tmp/1.1.0'' then Some ''exec format error'' else None)\<rparr>"

chapter \<open>Properties\<close>

section \<open>Dual-format resolution\<close>





lemma versionedRequest_no_fallback:
  "unmarshalVersioned T b = Inl e \<Longrightarrow>
     versionedRequest (T\<lparr>unmarshalT := f\<rparr>) b = versionedRequest T b"
  by (auto simp: versionedRequest_def split: sum.splits if_splits)


text \<open>The table of \<^verbatim>\<open>TestVersionedRequest\<close>, run on the model.\<close>

lemma TestVersionedRequest:
  "versionedRequest Config bodyBadJSON = Return (Inl (UnmarshalVersioned SyntaxError))"
  "versionedRequest Config bodyVersionOnly = Return (Inl ReqMissing)"
  "versionedRequest Config bodyRandom = Return (Inl InvalidRequest)"
  "versionedRequest Config bodyBare = Return (Inr (Latest, [(''Type'', ''test''), (''Data'', ''data'')]))"
  "versionedRequest Config bodyReqOnly = Return (Inl VersionMissing)"
  "versionedRequest Config bodyVersioned = Return (Inr (''1.0.0'', [(''Type'', ''test''), (''Data'', ''data'')]))"
  by code_simp+

subsection \<open>Encoded text decodes back\<close>






lemma not_ws [simp]: "\<not> is_ws dq" "\<not> is_ws CHR '':''" "\<not> is_ws CHR '',''" "\<not> is_ws CHR ''}''" "\<not> is_ws CHR ''{''"
  by (simp_all add: is_ws_def dq_def)

lemma dq_neq [simp]: "dq \<noteq> CHR ''{''" "dq \<noteq> CHR ''[''" "dq \<noteq> CHR ''}''" "dq \<noteq> CHR '',''" "dq \<noteq> CHR '':''"
  by (simp_all add: dq_def)





















subsection \<open>Resolution of encoded requests\<close>


lemma structType_total: "\<forall>x. IsZero (structType fs) x \<noteq> None"
  by (simp add: structType_def)








lemma structType_marshal_defined:
  assumes "\<forall>(f, x) \<in> set P. validUTF8 f \<and> validUTF8 x"
  shows "\<exists>b. marshalT (structType fs) P = Inr b"
proof -
  from assms have "\<exists>ms. encodeFields P = Inr ms"
    by (induction P) (auto simp: encodeString_def)
  then show ?thesis by (auto simp: structType_def encodeStruct_def)
qed

lemma structType_marshalVersioned_defined:
  assumes "\<forall>(f, x) \<in> set P. validUTF8 f \<and> validUTF8 x" and "validUTF8 V"
  shows "\<exists>b. marshalVersioned (structType fs) \<lparr>ABVersion = V, Req = P\<rparr> = Inr b"
proof -
  from structType_marshal_defined [OF assms(1), of fs] obtain r where "encodeStruct P = Inr r"
    by (auto simp: structType_def)
  with assms(2) show ?thesis
    by (simp add: structType_def encodeVersioned_def encodeString_def)
qed








section \<open>Forwarding\<close>

lemma handlers_agree:
  "latestConfig T client s c = bootstrapData T client s c"
  "distroConfig T client s c = bootstrapData T client s c"
  by (simp_all add: latestConfig_def distroConfig_def bootstrapData_def)

lemma Base_missing: "versions m v = None \<Longrightarrow> Base m v = []"
  by (simp add: Base_def)

lemma bootstrapData_unknown:
  "versions (mapping s) v = None \<Longrightarrow> versionedRequest T (Body c) = Return (Inr (v, p)) \<Longrightarrow>
     bootstrapData T client s c = Return (Inl (VersionNotFound v), [])"
  by (simp add: bootstrapData_def Base_def)

text \<open>
  Claim C4. For a version without an entry in the mapping, \<^const>\<open>Base\<close> returns the
  empty string, the not-found signal, and each of the three handlers, given a request
  that resolves to this version, returns the version-not-found error and issues no
  outbound request.
\<close>

theorem unknown_version_not_forwarded:
  "versions (mapping s) v = None \<longrightarrow>
     Base (mapping s) v = []
     \<and> (versionedRequest T (Body c) = Return (Inr (v, p)) \<longrightarrow>
          bootstrapData T client s c = Return (Inl (VersionNotFound v), []))
     \<and> (versionedRequest T' (Body c) = Return (Inr (v, p')) \<longrightarrow>
          latestConfig T' client s c = Return (Inl (VersionNotFound v), [])
          \<and> distroConfig T' client s c = Return (Inl (VersionNotFound v), []))"
  by (simp add: handlers_agree bootstrapData_unknown Base_missing)

theorem unknown_version_not_forwarded_witness:
  "versions (mapping exampleServer) ''9.9.9'' = None
   \<and> Base (mapping exampleServer) ''9.9.9'' = []
   \<and> versionedRequest Config (Body (exampleCtx (envelopeText ''9.9.9'' (structText ''x'' ''y''))))
        = Return (Inr (''9.9.9'', [(''Type'', ''x''), (''Data'', ''y'')]))
   \<and> bootstrapData Config okClient exampleServer (exampleCtx (envelopeText ''9.9.9'' (structText ''x'' ''y'')))
        = Return (Inl (VersionNotFound ''9.9.9''), [])
   \<and> latestConfig Config okClient exampleServer (exampleCtx (envelopeText ''9.9.9'' (structText ''x'' ''y'')))
        = Return (Inl (VersionNotFound ''9.9.9''), [])
   \<and> distroConfig Config okClient exampleServer (exampleCtx (envelopeText ''9.9.9'' (structText ''x'' ''y'')))
        = Return (Inl (VersionNotFound ''9.9.9''), [])"
proof -
  have h1: "versions (mapping exampleServer) ''9.9.9'' = None"
    by (simp add: exampleServer_def)
  have h2: "versionedRequest Config (Body (exampleCtx (envelopeText ''9.9.9'' (structText ''x'' ''y''))))
        = Return (Inr (''9.9.9'', [(''Type'', ''x''), (''Data'', ''y'')]))"
    by code_simp
  note t = unknown_version_not_forwarded [where s = exampleServer and v = "''9.9.9''" and T = Config
      and T' = Config and p = "[(''Type'', ''x''), (''Data'', ''y'')]" and p' = "[(''Type'', ''x''), (''Data'', ''y'')]"
      and c = "exampleCtx (envelopeText ''9.9.9'' (structText ''x'' ''y''))" and client = okClient]
  from t h1 h2 show ?thesis
    by blast
qed

subsection \<open>The outbound request\<close>

lemma sendToAgentBaker_request:
  "snd (sendToAgentBaker client c base body)
     = [\<lparr>HTTPMethod = ''POST'', URL = Join [base, Path c], ReqHeader = Header c, ReqBody = body\<rparr>]"
proof -
  have "foldl (\<lambda>a (key, val). a\<lparr>ReqHeader := ReqHeader a @ [(key, val)]\<rparr>) a hs
          = a\<lparr>ReqHeader := ReqHeader a @ hs\<rparr>" for a :: AgentRequest and hs
    by (induction hs arbitrary: a) auto
  then show ?thesis
    by (simp add: sendToAgentBaker_def Let_def split: prod.splits)
qed

lemma sendToAgentBaker_result:
  "client \<lparr>HTTPMethod = ''POST'', URL = Join [base, Path c], ReqHeader = Header c, ReqBody = body\<rparr>
      = (status, answer, es) \<Longrightarrow>
   fst (sendToAgentBaker client c base body)
     = (if es \<noteq> [] then Inl (SendFailed (hd es))
        else if status \<noteq> 200 then Inl (BadStatus status)
        else Inr answer)"
proof -
  have "foldl (\<lambda>a (key, val). a\<lparr>ReqHeader := ReqHeader a @ [(key, val)]\<rparr>) a hs
          = a\<lparr>ReqHeader := ReqHeader a @ hs\<rparr>" for a :: AgentRequest and hs
    by (induction hs arbitrary: a) auto
  moreover assume "client \<lparr>HTTPMethod = ''POST'', URL = Join [base, Path c], ReqHeader = Header c, ReqBody = body\<rparr>
      = (status, answer, es)"
  ultimately show ?thesis
    by (simp add: sendToAgentBaker_def Let_def)
qed

lemma bootstrapData_forwards:
  assumes "versionedRequest T (Body c) = Return (Inr (ver, config))"
    and "Base (mapping s) ver \<noteq> []" and "marshalT T config = Inr out"
  shows "bootstrapData T client s c = Return (sendToAgentBaker client c (Base (mapping s) ver) out)"
  using assms by (simp add: bootstrapData_def Let_def)

subsection \<open>Cleaned paths have no double slash\<close>

lemma hasDoubleSlash_append:
  "hasDoubleSlash (xs @ ys) \<longleftrightarrow>
     hasDoubleSlash xs \<or> hasDoubleSlash ys
     \<or> (xs \<noteq> [] \<and> ys \<noteq> [] \<and> last xs = CHR ''/'' \<and> hd ys = CHR ''/'')"
proof (induction xs rule: hasDoubleSlash.induct)
  case (1 a b cs)
  then show ?case by auto
qed (simp, cases ys, auto)

lemma no_slash_no_double: "CHR ''/'' \<notin> set xs \<Longrightarrow> \<not> hasDoubleSlash xs"
  by (induction xs rule: hasDoubleSlash.induct) auto

lemma splitSlash_nonempty: "splitSlash p \<noteq> []"
  by (induction p) (auto split: list.splits)

lemma splitSlash_no_slash: "e \<in> set (splitSlash p) \<Longrightarrow> CHR ''/'' \<notin> set e"
proof (induction p arbitrary: e)
  case Nil
  then show ?case by simp
next
  case (Cons c cs)
  show ?case
  proof (cases "c = CHR ''/''")
    case True
    with Cons show ?thesis by auto
  next
    case False
    obtain x xs where s: "splitSlash cs = x # xs"
      using splitSlash_nonempty [of cs] by (cases "splitSlash cs") auto
    with Cons.prems False have "e = c # x \<or> e \<in> set xs" by simp
    with Cons.IH [of x] Cons.IH [of e] s False show ?thesis by auto
  qed
qed

lemma cleanElems_plain:
  "list_all plain out \<Longrightarrow> (\<And>e. e \<in> set es \<Longrightarrow> CHR ''/'' \<notin> set e) \<Longrightarrow>
     list_all plain (cleanElems rooted out es)"
proof (induction rooted out es rule: cleanElems.induct)
  case (1 rooted out)
  then show ?case by (simp add: list_all_iff)
next
  case (2 rooted out e es)
  have dd: "plain ''..''" by (simp add: plain_def)
  from "2.prems" have e: "e \<noteq> [] \<Longrightarrow> plain e" by (simp add: plain_def)
  show ?case
  proof (cases "e = [] \<or> e = ''.''")
    case True
    with 2 show ?thesis by simp
  next
    case False
    show ?thesis
    proof (cases "e = ''..''")
      case dots: True
      show ?thesis
      proof (cases out)
        case Nil
        with 2 False dots dd show ?thesis by (cases rooted) simp_all
      next
        case (Cons t out')
        with 2 False dots dd show ?thesis by (cases "t = ''..''") simp_all
      qed
    next
      case other: False
      with 2 False e show ?thesis by simp
    qed
  qed
qed

lemma intercalate_plain:
  "list_all plain es \<Longrightarrow>
     \<not> hasDoubleSlash (intercalate ''/'' es)
     \<and> (intercalate ''/'' es = [] \<or> hd (intercalate ''/'' es) \<noteq> CHR ''/'')"
proof (induction "''/''" es rule: intercalate.induct)
  case 1
  show ?case by simp
next
  case (2 x)
  then show ?case
    by (cases x) (auto simp: plain_def no_slash_no_double)
next
  case (3 x y zs)
  from "3.prems" have x: "x \<noteq> []" "CHR ''/'' \<notin> set x" and rest: "list_all plain (y # zs)"
    by (simp_all add: plain_def)
  from "3.hyps" [OF rest] have ih: "\<not> hasDoubleSlash (intercalate ''/'' (y # zs))"
    "intercalate ''/'' (y # zs) = [] \<or> hd (intercalate ''/'' (y # zs)) \<noteq> CHR ''/''"
    by simp_all
  from x have lx: "last x \<noteq> CHR ''/''" by (metis last_in_set)
  from x have hx: "hd x \<noteq> CHR ''/''" by (metis hd_in_set)
  have "\<not> hasDoubleSlash (''/'' @ intercalate ''/'' (y # zs))"
    using ih by (subst hasDoubleSlash_append) auto
  with x lx have "\<not> hasDoubleSlash (x @ ''/'' @ intercalate ''/'' (y # zs))"
    by (subst hasDoubleSlash_append) (auto simp: no_slash_no_double)
  with x hx show ?case by simp
qed

lemma Clean_no_double_slash: "\<not> hasDoubleSlash (Clean p)"
proof (cases "p = []")
  case True
  then show ?thesis by (simp add: Clean_def)
next
  case False
  let ?r = "hd p = CHR ''/''"
  let ?s = "intercalate ''/'' (cleanElems ?r [] (splitSlash p))"
  have "list_all plain (cleanElems ?r [] (splitSlash p))"
    by (rule cleanElems_plain) (simp_all add: splitSlash_no_slash)
  from intercalate_plain [OF this]
  have s: "\<not> hasDoubleSlash ?s" "?s = [] \<or> hd ?s \<noteq> CHR ''/''" by simp_all
  then have "\<not> hasDoubleSlash (''/'' @ ?s)"
    by (subst hasDoubleSlash_append) auto
  with s False show ?thesis
    by (cases "hd p = CHR ''/''") (auto simp add: Clean_def Let_def)
qed

lemma Join_no_double_slash: "\<not> hasDoubleSlash (Join elem)"
  by (simp add: Join_def Let_def Clean_no_double_slash)

lemma localhostAddr_double_slash: "hasDoubleSlash (localhostAddr port @ path)"
  by (simp add: localhostAddr_def)

text \<open>No address of the supervisor, followed by any path, is what the router sends to.\<close>

lemma Join_localhostAddr: "Join [localhostAddr port, path] \<noteq> localhostAddr port @ path"
  by (metis Join_no_double_slash localhostAddr_double_slash)

text \<open>
  Claim C3 says that the outbound request goes to the mapped base address followed by
  the request path. The handler builds the address with \<^const>\<open>Join\<close>, which cleans
  the result as a file path: the two slashes after the scheme become one. A bare
  request to \<^verbatim>\<open>/getnodebootstrapdata\<close> on \<^const>\<open>exampleServer\<close> is sent, once, with the
  headers and the re-encoded payload, to an address that is not the base address
  followed by the path. By \<open>Join_localhostAddr\<close> the same holds for every address that
  the supervisor produces and every path.
\<close>

theorem bootstrapData_forwards_to_cleaned_url:
  "bootstrapData Config okClient exampleServer (exampleCtx (structText ''x'' ''y''))
     = Return (Inr ''done'',
        [\<lparr>HTTPMethod = ''POST'',
          URL = ''http:/localhost:8080/getnodebootstrapdata'',
          ReqHeader = [(''Content-Type'', ''application/json'')],
          ReqBody = structText ''x'' ''y''\<rparr>])
   \<and> Base (mapping exampleServer) Latest @ Path (exampleCtx (structText ''x'' ''y''))
     = ''http://localhost:8080/getnodebootstrapdata''"
  by code_simp

section \<open>Discovery and launch\<close>

subsection \<open>Decimal numerals\<close>

lemma digitChar_inj: "a < 10 \<Longrightarrow> b < 10 \<Longrightarrow> digitChar a = digitChar b \<Longrightarrow> a = b"
proof -
  have d: "distinct ''0123456789''" by simp
  assume "a < 10" "b < 10" "digitChar a = digitChar b"
  with d show ?thesis
    by (simp add: digitChar_def nth_eq_iff_index_eq)
qed

lemma digitChar_not_minus: "a < 10 \<Longrightarrow> digitChar a \<noteq> CHR ''-''"
proof -
  assume "a < 10"
  then have "digitChar a \<in> set ''0123456789''"
    unfolding digitChar_def by (intro nth_mem) simp
  then show ?thesis by auto
qed

lemma decimal_nonempty: "decimal n \<noteq> []"
  by (subst decimal.simps) simp

lemma decimal_small: "n < 10 \<Longrightarrow> decimal n = [digitChar n]"
  by (subst decimal.simps) simp

lemma decimal_large: "\<not> n < 10 \<Longrightarrow> decimal n = decimal (n div 10) @ [digitChar (n mod 10)]"
  by (subst decimal.simps) simp

lemma decimal_inj: "decimal n = decimal m \<Longrightarrow> n = m"
proof (induction n arbitrary: m rule: decimal.induct)
  case (1 n)
  show ?case
  proof (cases "n < 10")
    case small: True
    show ?thesis
    proof (cases "m < 10")
      case True
      with small "1.prems" show ?thesis
        by (simp add: decimal_small digitChar_inj)
    next
      case False
      with small "1.prems" decimal_nonempty [of "m div 10"] show ?thesis
        by (simp add: decimal_small decimal_large Cons_eq_append_conv)
    qed
  next
    case large: False
    show ?thesis
    proof (cases "m < 10")
      case True
      with large "1.prems" decimal_nonempty [of "n div 10"] show ?thesis
        by (simp add: decimal_small decimal_large append_eq_Cons_conv)
    next
      case False
      with large "1.prems" have eq: "decimal (n div 10) = decimal (m div 10)"
        and dg: "digitChar (n mod 10) = digitChar (m mod 10)"
        by (simp_all add: decimal_large)
      from "1.IH" [OF large eq] have "n div 10 = m div 10" .
      moreover from dg have "n mod 10 = m mod 10"
        by (intro digitChar_inj) simp_all
      ultimately show ?thesis
        by (metis div_mult_mod_eq)
    qed
  qed
qed

lemma decimal_hd: "hd (decimal n) \<noteq> CHR ''-''"
proof (induction n rule: decimal.induct)
  case (1 n)
  show ?case
  proof (cases "n < 10")
    case True
    then show ?thesis by (simp add: decimal_small digitChar_not_minus)
  next
    case False
    with "1.IH" decimal_nonempty [of "n div 10"] show ?thesis
      by (simp add: decimal_large)
  qed
qed

lemma itoa_inj: "itoa a = itoa b \<Longrightarrow> a = b"
proof -
  assume eq: "itoa a = itoa b"
  have neg: "decimal n \<noteq> CHR ''-'' # s" for n s
    using decimal_hd [of n] by (cases "decimal n") auto
  show ?thesis
  proof (cases "a < 0"; cases "b < 0")
    assume "a < 0" "b < 0"
    with eq have "nat (- a) = nat (- b)" by (simp add: itoa_def decimal_inj)
    with \<open>a < 0\<close> \<open>b < 0\<close> show ?thesis by simp
  next
    assume "a < 0" "\<not> b < 0"
    with eq neg show ?thesis by (simp add: itoa_def) metis
  next
    assume "\<not> a < 0" "b < 0"
    with eq neg show ?thesis by (simp add: itoa_def)
  next
    assume "\<not> a < 0" "\<not> b < 0"
    with eq have "nat a = nat b" by (simp add: itoa_def decimal_inj)
    with \<open>\<not> a < 0\<close> \<open>\<not> b < 0\<close> show ?thesis by simp
  qed
qed

lemma localhostAddr_inj: "localhostAddr p = localhostAddr q \<Longrightarrow> p = q"
  by (auto simp: localhostAddr_def dest!: itoa_inj signed_word_eqI)

lemma localhostAddr_nonempty: "localhostAddr p \<noteq> []"
  by (simp add: localhostAddr_def)

subsection \<open>Discovery\<close>

lemma extractLoop_versions:
  "extractLoop fs es acc = Inr vps \<Longrightarrow>
     map version vps = map version acc @ map Name (filter IsDir es)"
proof (induction es arbitrary: acc)
  case Nil
  then show ?case by simp
next
  case (Cons e es)
  show ?case
  proof (cases "IsDir e")
    case False
    with Cons show ?thesis by simp
  next
    case True
    with Cons.prems obtain content where
      rd: "ReadFile fs (Join [Name e, ''agentbaker'']) = Inr content"
      and rest: "extractLoop fs es (acc @ [\<lparr>version = Name e, bin = content, addr = []\<rparr>]) = Inr vps"
      by (auto simp: validate_def Let_def split: sum.splits)
    from Cons.IH [OF rest] True show ?thesis by simp
  qed
qed

lemma extractBinaries_versions:
  "ReadDir rdfs ''.'' = Inr entries \<Longrightarrow> extractBinaries rdfs fs = Inr vps \<Longrightarrow>
     map version vps = map Name (filter IsDir entries)"
  using extractLoop_versions [of fs entries "[]" vps]
  by (simp add: extractBinaries_def)

subsection \<open>One launch\<close>

lemma launch_write_failed:
  "WriteFile os (Join [t, version vp]) (bin vp) = Some err \<Longrightarrow>
     launch os t i vp st = st\<lparr>errs := errs st @ [WriteFailed (version vp) err]\<rparr>"
  by (simp add: launch_def)

lemma launch_start_failed:
  "WriteFile os (Join [t, version vp]) (bin vp) = None \<Longrightarrow>
   Start os (Join [t, version vp]) [''-port'', localhostAddr (ports st)] = Some err \<Longrightarrow>
     launch os t i vp st =
       st\<lparr>ports := ports st + 1,
          allocated := allocated st @ [ports st],
          commands := commands st @ [(Join [t, version vp], [''-port'', localhostAddr (ports st)])],
          errs := errs st @ [StartFailed (version vp) err]\<rparr>"
  by (simp add: launch_def Let_def)

lemma launch_started:
  "WriteFile os (Join [t, version vp]) (bin vp) = None \<Longrightarrow>
   Start os (Join [t, version vp]) [''-port'', localhostAddr (ports st)] = None \<Longrightarrow>
     launch os t i vp st =
       st\<lparr>ports := ports st + 1,
          allocated := allocated st @ [ports st],
          commands := commands st @ [(Join [t, version vp], [''-port'', localhostAddr (ports st)])],
          paths := (paths st)[i := vp\<lparr>addr := localhostAddr (ports st)\<rparr>]\<rparr>"
  by (simp add: launch_def Let_def)

lemma launch_cases:
  obtains
    (write_failed) err where
      "WriteFile os (Join [t, version vp]) (bin vp) = Some err"
  | (start_failed) err where
      "WriteFile os (Join [t, version vp]) (bin vp) = None"
      "Start os (Join [t, version vp]) [''-port'', localhostAddr (ports st)] = Some err"
  | (started)
      "WriteFile os (Join [t, version vp]) (bin vp) = None"
      "Start os (Join [t, version vp]) [''-port'', localhostAddr (ports st)] = None"
  by (cases "WriteFile os (Join [t, version vp]) (bin vp)";
      cases "Start os (Join [t, version vp]) [''-port'', localhostAddr (ports st)]") auto

lemma launch_errs_grow: "\<exists>es. errs (launch os t i vp st) = errs st @ es"
  by (cases rule: launch_cases [where os = os and t = t and vp = vp and st = st])
     (simp_all add: launch_write_failed launch_start_failed launch_started)

lemma launch_length: "length (paths (launch os t i vp st)) = length (paths st)"
  by (cases rule: launch_cases [where os = os and t = t and vp = vp and st = st])
     (simp_all add: launch_write_failed launch_start_failed launch_started)

lemma launch_versions:
  assumes "i < length (paths st)" and "version (paths st ! i) = version vp"
  shows "map version (paths (launch os t i vp st)) = map version (paths st)"
proof (cases rule: launch_cases [where os = os and t = t and vp = vp and st = st])
  case started
  from assms have "(map version (paths st))[i := version vp] = map version (paths st)"
    by (metis length_map list_update_id nth_map)
  with started show ?thesis
    by (simp add: launch_started map_update)
qed (simp_all add: launch_write_failed launch_start_failed)

lemma counted_init: "counted (spawnInit vps)"
  by (simp add: counted_def spawnInit_def)

lemma counted_launch: "counted st \<Longrightarrow> counted (launch os t i vp st)"
proof (cases rule: launch_cases [where os = os and t = t and vp = vp and st = st])
  case (write_failed err)
  assume "counted st"
  with write_failed show ?thesis by (simp add: launch_write_failed counted_def)
next
  case (start_failed err)
  assume c: "counted st"
  then have "allocated st @ [ports st]
      = map (\<lambda>k. 8080 + of_nat k) [0..<Suc (length (allocated st))]"
    by (simp add: counted_def)
  with c start_failed show ?thesis
    by (simp add: launch_start_failed counted_def)
next
  case started
  assume c: "counted st"
  then have "allocated st @ [ports st]
      = map (\<lambda>k. 8080 + of_nat k) [0..<Suc (length (allocated st))]"
    by (simp add: counted_def)
  with c started show ?thesis
    by (simp add: launch_started counted_def)
qed

subsection \<open>A schedule of launches\<close>

lemma runSchedule_counted:
  "counted st \<Longrightarrow> counted (runSchedule os t vps sched st)"
  by (induction sched arbitrary: st) (simp_all add: counted_launch)

lemma runSchedule_errs_grow:
  "\<exists>es. errs (runSchedule os t vps sched st) = errs st @ es"
proof (induction sched arbitrary: st)
  case Nil
  show ?case by simp
next
  case (Cons i sched)
  show ?case
  proof (cases "i < length vps")
    case False
    with Cons [of st] show ?thesis by simp
  next
    case True
    from launch_errs_grow [of os t i "vps ! i" st]
    obtain es where "errs (launch os t i (vps ! i) st) = errs st @ es" by auto
    moreover from Cons [of "launch os t i (vps ! i) st"] obtain es' where
      "errs (runSchedule os t vps sched (launch os t i (vps ! i) st))
         = errs (launch os t i (vps ! i) st) @ es'" by auto
    ultimately show ?thesis using True by simp
  qed
qed

lemma runSchedule_length:
  "length (paths (runSchedule os t vps sched st)) = length (paths st)"
  by (induction sched arbitrary: st) (simp_all add: launch_length)

lemma runSchedule_versions:
  "map version (paths st) = map version vps \<Longrightarrow>
     map version (paths (runSchedule os t vps sched st)) = map version vps"
proof (induction sched arbitrary: st)
  case Nil
  then show ?case by simp
next
  case (Cons i sched)
  show ?case
  proof (cases "i < length vps")
    case False
    with Cons show ?thesis by simp
  next
    case True
    from Cons.prems have len: "length (paths st) = length vps"
      by (metis length_map)
    with True Cons.prems have "version (paths st ! i) = version (vps ! i)"
      by (metis nth_map)
    with True len have "map version (paths (launch os t i (vps ! i) st)) = map version vps"
      by (simp add: launch_versions Cons.prems)
    from Cons.IH [OF this] True show ?thesis by simp
  qed
qed

subsection \<open>The mapping\<close>

lemma foldl_mapping_snoc:
  "foldl (\<lambda>m vp. m(version vp \<mapsto> addr vp)) m0 (xs @ [x])
     = (foldl (\<lambda>m vp. m(version vp \<mapsto> addr vp)) m0 xs)(version x \<mapsto> addr x)"
  by simp

lemma foldl_mapping_dom:
  "dom (foldl (\<lambda>m vp. m(version vp \<mapsto> addr vp)) m0 xs) = dom m0 \<union> set (map version xs)"
  by (induction xs arbitrary: m0) auto

lemma New_cases:
  obtains
    (extract_failed) err where
      "extractBinaries fs fs = Inl err"
      "New fs os sched = (\<lparr>versions = Map.empty\<rparr>, Some err)"
  | (spawn_failed) vps err es where
      "extractBinaries fs fs = Inr vps"
      "errs (runSchedule os (TempDir os) vps sched (spawnInit vps)) = err # es"
      "New fs os sched = (\<lparr>versions = Map.empty\<rparr>, Some err)"
  | (launched) vps where
      "extractBinaries fs fs = Inr vps"
      "errs (runSchedule os (TempDir os) vps sched (spawnInit vps)) = []"
      "New fs os sched =
         (\<lparr>versions = foldl (\<lambda>m vp. m(version vp \<mapsto> addr vp)) Map.empty
              (paths (runSchedule os (TempDir os) vps sched (spawnInit vps)))\<rparr>, None)"
proof (cases "extractBinaries fs fs")
  case (Inl err)
  then show ?thesis using extract_failed by (simp add: New_def)
next
  case (Inr vps)
  show ?thesis
  proof (cases "errs (runSchedule os (TempDir os) vps sched (spawnInit vps))")
    case Nil
    with Inr show ?thesis using launched by (simp add: New_def spawnVersions_def Let_def)
  next
    case (Cons err es)
    with Inr show ?thesis using spawn_failed by (simp add: New_def spawnVersions_def Let_def)
  qed
qed

lemma New_keys:
  assumes "ReadDir fs ''.'' = Inr entries" and "New fs os sched = (m, None)"
  shows "dom (versions m) = set (map Name (filter IsDir entries))"
proof (cases rule: New_cases [where fs = fs and os = os and sched = sched])
  case (launched vps)
  let ?ps = "paths (runSchedule os (TempDir os) vps sched (spawnInit vps))"
  have "map version ?ps = map version vps"
    by (rule runSchedule_versions) (simp add: spawnInit_def)
  moreover from assms(1) launched(1) have "map version vps = map Name (filter IsDir entries)"
    by (rule extractBinaries_versions)
  ultimately have "set (map version ?ps) = set (map Name (filter IsDir entries))"
    by (simp only:)
  moreover from assms(2) launched(3)
  have "versions m = foldl (\<lambda>m vp. m(version vp \<mapsto> addr vp)) Map.empty ?ps"
    by auto
  ultimately show ?thesis
    by (simp only: foldl_mapping_dom dom_empty Un_empty_left)
qed (use assms in simp_all)

subsection \<open>The example bundle\<close>

lemma exampleFS_extract:
  "extractBinaries exampleFS exampleFS =
     Inr [\<lparr>version = ''1.0.0'', bin = ''binary of 1.0.0'', addr = []\<rparr>,
          \<lparr>version = ''1.1.0'', bin = ''binary of 1.1.0'', addr = []\<rparr>]"
  by (simp add: extractBinaries_def exampleFS_def validate_def Join_def Clean_def)

lemma itoa_8080: "itoa 8080 = ''8080''" "itoa 8081 = ''8081''"
  by (simp_all add: itoa_def decimal.simps digitChar_def)

lemma localhostAddr_8080:
  "localhostAddr 8080 = ''http://localhost:8080''"
  "localhostAddr 8081 = ''http://localhost:8081''"
  by (simp_all add: localhostAddr_def itoa_8080)

lemma join_tmp:
  "Join [''/tmp'', ''1.0.0''] = ''/tmp/1.0.0''"
  "Join [''/tmp'', ''1.1.0''] = ''/tmp/1.1.0''"
  by (simp_all add: Join_def Clean_def)

lemma exampleFS_New:
  "New exampleFS exampleOS [1, 0] =
     (\<lparr>versions = [''1.0.0'' \<mapsto> ''http://localhost:8081'', ''1.1.0'' \<mapsto> ''http://localhost:8080'']\<rparr>, None)"
  by (simp add: New_def exampleFS_extract spawnVersions_def launch_def spawnInit_def exampleOS_def
      join_tmp localhostAddr_8080 Let_def)

subsection \<open>Claims about the mapping\<close>

text \<open>
  Claim C7. When \<^const>\<open>New\<close> returns a mapping without an error, the keys of the
  mapping are exactly the names of the directories of the bundle: nothing is added
  for \<open>latest\<close>, and looking \<open>latest\<close> up gives the not-found signal unless a
  directory has that name.
\<close>

theorem mapping_keys_are_directory_names:
  "ReadDir fs ''.'' = Inr entries \<and> New fs os sched = (m, None) \<longrightarrow>
     dom (versions m) = set (map Name (filter IsDir entries))
     \<and> (Latest \<notin> set (map Name (filter IsDir entries)) \<longrightarrow> Base m Latest = [])"
proof (intro impI, elim conjE)
  assume a: "ReadDir fs ''.'' = Inr entries" "New fs os sched = (m, None)"
  then have k: "dom (versions m) = set (map Name (filter IsDir entries))"
    by (rule New_keys)
  moreover have "Base m Latest = []" if "Latest \<notin> set (map Name (filter IsDir entries))"
  proof -
    from that k have "versions m Latest = None" by (metis domIff)
    then show ?thesis by (simp add: Base_def)
  qed
  ultimately show "dom (versions m) = set (map Name (filter IsDir entries))
     \<and> (Latest \<notin> set (map Name (filter IsDir entries)) \<longrightarrow> Base m Latest = [])"
    by simp
qed

theorem mapping_keys_are_directory_names_witness:
  "ReadDir exampleFS ''.'' =
     Inr [\<lparr>Name = ''1.0.0'', IsDir = True\<rparr>, \<lparr>Name = ''README.md'', IsDir = False\<rparr>,
          \<lparr>Name = ''1.1.0'', IsDir = True\<rparr>]
   \<and> New exampleFS exampleOS [1, 0] =
     (\<lparr>versions = [''1.0.0'' \<mapsto> ''http://localhost:8081'', ''1.1.0'' \<mapsto> ''http://localhost:8080'']\<rparr>, None)
   \<and> dom (versions \<lparr>versions = [''1.0.0'' \<mapsto> ''http://localhost:8081'', ''1.1.0'' \<mapsto> ''http://localhost:8080'']\<rparr>)
       = {''1.0.0'', ''1.1.0''}
   \<and> Base \<lparr>versions = [''1.0.0'' \<mapsto> ''http://localhost:8081'', ''1.1.0'' \<mapsto> ''http://localhost:8080'']\<rparr> Latest = []"
proof -
  have h1: "ReadDir exampleFS ''.'' =
     Inr [\<lparr>Name = ''1.0.0'', IsDir = True\<rparr>, \<lparr>Name = ''README.md'', IsDir = False\<rparr>,
          \<lparr>Name = ''1.1.0'', IsDir = True\<rparr>]"
    by (simp add: exampleFS_def)
  have h4: "Latest \<notin> {''1.0.0'', ''1.1.0''}"
    by (simp add: Latest_def)
  note t = mapping_keys_are_directory_names [where fs = exampleFS and os = exampleOS and sched = "[1, 0]"
      and entries = "[\<lparr>Name = ''1.0.0'', IsDir = True\<rparr>, \<lparr>Name = ''README.md'', IsDir = False\<rparr>,
          \<lparr>Name = ''1.1.0'', IsDir = True\<rparr>]"
      and m = "\<lparr>versions = [''1.0.0'' \<mapsto> ''http://localhost:8081'', ''1.1.0'' \<mapsto> ''http://localhost:8080'']\<rparr>"]
  from t h1 exampleFS_New h4 show ?thesis
    by simp
qed

subsection \<open>Claims about discovery\<close>

lemma validate_accepts: "validate v = None"
  by (simp add: validate_def)

text \<open>
  Claim C9 says that a directory whose name is no release tag makes discovery fail.
  \<^const>\<open>validate\<close> accepts every name, so discovery accepts the directory
  \<^verbatim>\<open>not a version!\<close> of \<^const>\<open>malformedFS\<close>, and \<^const>\<open>New\<close> returns a mapping with that
  name as a key.
\<close>

theorem malformed_directory_name_accepted:
  "extractBinaries malformedFS malformedFS
     = Inr [\<lparr>version = ''not a version!'', bin = ''some binary'', addr = []\<rparr>]
   \<and> New malformedFS exampleOS [0]
     = (\<lparr>versions = [''not a version!'' \<mapsto> ''http://localhost:8080'']\<rparr>, None)"
proof -
  have j: "Join [''not a version!'', ''agentbaker''] = ''not a version!/agentbaker''"
    "Join [''/tmp'', ''not a version!''] = ''/tmp/not a version!''"
    by (simp_all add: Join_def Clean_def)
  have e: "extractBinaries malformedFS malformedFS
     = Inr [\<lparr>version = ''not a version!'', bin = ''some binary'', addr = []\<rparr>]"
    by (simp add: extractBinaries_def malformedFS_def validate_def j)
  then show ?thesis
    by (simp add: New_def spawnVersions_def launch_def spawnInit_def exampleOS_def j
        localhostAddr_8080 Let_def)
qed

subsection \<open>Claims about launch\<close>

text \<open>
  Claim C8 says that the binary is started with the numeric port as its argument. The
  commands that a launch of the two entries of \<^const>\<open>exampleFS\<close> issues carry the whole
  address after \<open>-port\<close>, not the decimal numeral of the port.
\<close>

theorem start_argument_is_the_address:
  "commands (runSchedule exampleOS (TempDir exampleOS)
       [\<lparr>version = ''1.0.0'', bin = ''binary of 1.0.0'', addr = []\<rparr>,
        \<lparr>version = ''1.1.0'', bin = ''binary of 1.1.0'', addr = []\<rparr>] [0, 1]
       (spawnInit [\<lparr>version = ''1.0.0'', bin = ''binary of 1.0.0'', addr = []\<rparr>,
                   \<lparr>version = ''1.1.0'', bin = ''binary of 1.1.0'', addr = []\<rparr>]))
     = [(''/tmp/1.0.0'', [''-port'', ''http://localhost:8080'']),
        (''/tmp/1.1.0'', [''-port'', ''http://localhost:8081''])]
   \<and> itoa (sint (8080 :: 32 word)) = ''8080''"
  by (simp add: launch_def spawnInit_def exampleOS_def join_tmp localhostAddr_8080 itoa_8080 Let_def)

lemma runSchedule_errs_stay:
  "errs st \<noteq> [] \<Longrightarrow> errs (runSchedule os t vps sched st) \<noteq> []"
  using runSchedule_errs_grow [of os t vps sched st] by auto

lemma launch_fails:
  assumes "WriteFile os (Join [t, version vp]) (bin vp) \<noteq> None
           \<or> (\<forall>a. Start os (Join [t, version vp]) [''-port'', a] \<noteq> None)"
  shows "errs (launch os t i vp st) \<noteq> []"
proof (cases rule: launch_cases [where os = os and t = t and vp = vp and st = st])
  case (write_failed err)
  then show ?thesis by (simp add: launch_write_failed)
next
  case (start_failed err)
  then show ?thesis by (simp add: launch_start_failed)
next
  case started
  with assms show ?thesis by metis
qed

lemma runSchedule_fails:
  assumes "i \<in> set sched" and "i < length vps"
    and "WriteFile os (Join [t, version (vps ! i)]) (bin (vps ! i)) \<noteq> None
         \<or> (\<forall>a. Start os (Join [t, version (vps ! i)]) [''-port'', a] \<noteq> None)"
  shows "errs (runSchedule os t vps sched st) \<noteq> []"
  using assms(1)
proof (induction sched arbitrary: st)
  case Nil
  then show ?case by simp
next
  case (Cons j sched)
  show ?case
  proof (cases "j = i")
    case True
    from assms(3) have "errs (launch os t i (vps ! i) st) \<noteq> []"
      by (rule launch_fails)
    with True assms(2) show ?thesis
      by (simp add: runSchedule_errs_stay)
  next
    case False
    with Cons.prems have "i \<in> set sched" by simp
    then show ?thesis
      by (simp add: Cons.IH)
  qed
qed

text \<open>
  Claim C6. If the write or the start of one entry fails, in any schedule of the
  launches, \<^const>\<open>New\<close> returns an error and a mapping without entries; and whenever
  \<^const>\<open>New\<close> returns an error, for whatever reason, its mapping has no entries.
\<close>

theorem failed_launch_publishes_nothing:
  "(extractBinaries fs fs = Inr vps \<and> schedule (length vps) sched \<and> i < length vps
      \<and> (WriteFile os (Join [TempDir os, version (vps ! i)]) (bin (vps ! i)) \<noteq> None
          \<or> (\<forall>a. Start os (Join [TempDir os, version (vps ! i)]) [''-port'', a] \<noteq> None))
      \<longrightarrow> (\<exists>err. New fs os sched = (\<lparr>versions = Map.empty\<rparr>, Some err)))
   \<and> (snd (New fs os sched) \<noteq> None \<longrightarrow> dom (versions (fst (New fs os sched))) = {})"
proof (intro conjI impI; (elim conjE)?)
  assume ex: "extractBinaries fs fs = Inr vps" and sc: "schedule (length vps) sched"
    and i: "i < length vps"
    and f: "WriteFile os (Join [TempDir os, version (vps ! i)]) (bin (vps ! i)) \<noteq> None
          \<or> (\<forall>a. Start os (Join [TempDir os, version (vps ! i)]) [''-port'', a] \<noteq> None)"
  from sc i have "i \<in> set sched" by (simp add: schedule_def)
  from runSchedule_fails [OF this i f]
  have "errs (runSchedule os (TempDir os) vps sched (spawnInit vps)) \<noteq> []" .
  with ex show "\<exists>err. New fs os sched = (\<lparr>versions = Map.empty\<rparr>, Some err)"
    by (cases rule: New_cases [where fs = fs and os = os and sched = sched]) simp_all
next
  assume "snd (New fs os sched) \<noteq> None"
  then show "dom (versions (fst (New fs os sched))) = {}"
    by (cases rule: New_cases [where fs = fs and os = os and sched = sched]) simp_all
qed

theorem failed_launch_publishes_nothing_witness:
  "extractBinaries exampleFS exampleFS =
     Inr [\<lparr>version = ''1.0.0'', bin = ''binary of 1.0.0'', addr = []\<rparr>,
          \<lparr>version = ''1.1.0'', bin = ''binary of 1.1.0'', addr = []\<rparr>]
   \<and> schedule 2 [1, 0]
   \<and> (\<forall>a. Start failingOS (Join [TempDir failingOS, ''1.1.0'']) [''-port'', a] \<noteq> None)
   \<and> (\<exists>err. New exampleFS failingOS [1, 0] = (\<lparr>versions = Map.empty\<rparr>, Some err))
   \<and> snd (New exampleFS failingOS [1, 0]) \<noteq> None
   \<and> dom (versions (fst (New exampleFS failingOS [1, 0]))) = {}"
proof -
  let ?vps = "[\<lparr>version = ''1.0.0'', bin = ''binary of 1.0.0'', addr = []\<rparr>,
          \<lparr>version = ''1.1.0'', bin = ''binary of 1.1.0'', addr = []\<rparr>]"
  have h2: "schedule (length ?vps) [1, 0]" and h2': "schedule 2 [1, 0]"
    by (auto simp: schedule_def)
  have h3: "\<forall>a. Start failingOS (Join [TempDir failingOS, version (?vps ! 1)]) [''-port'', a] \<noteq> None"
    and h3': "\<forall>a. Start failingOS (Join [TempDir failingOS, ''1.1.0'']) [''-port'', a] \<noteq> None"
    by (simp_all add: failingOS_def join_tmp)
  note t = failed_launch_publishes_nothing [where fs = exampleFS and os = failingOS
      and sched = "[1, 0]" and vps = ?vps and i = 1]
  from t exampleFS_extract h2 h3
  have r: "\<exists>err. New exampleFS failingOS [1, 0] = (\<lparr>versions = Map.empty\<rparr>, Some err)"
    by simp
  then have r': "snd (New exampleFS failingOS [1, 0]) \<noteq> None"
    by auto
  with t have r'': "dom (versions (fst (New exampleFS failingOS [1, 0]))) = {}"
    by blast
  from exampleFS_extract h2' h3' r r' r'' show ?thesis
    by (intro conjI)
qed

subsection \<open>Runs without errors\<close>

lemma placed_init: "placed vps [] (spawnInit vps)"
  by (simp add: placed_def spawnInit_def)

lemma placed_launch:
  assumes p: "placed vps served st" and i: "i < length vps" "i \<notin> set served"
    and ok: "errs st = []" "errs (launch os t i (vps ! i) st) = []"
  shows "placed vps (served @ [i]) (launch os t i (vps ! i) st)"
proof (cases rule: launch_cases [where os = os and t = t and vp = "vps ! i" and st = st])
  case (write_failed err)
  with ok show ?thesis by (simp add: launch_write_failed)
next
  case (start_failed err)
  with ok show ?thesis by (simp add: launch_start_failed)
next
  case started
  let ?vp = "(vps ! i)\<lparr>addr := localhostAddr (ports st)\<rparr>"
  from started have l: "launch os t i (vps ! i) st =
       st\<lparr>ports := ports st + 1,
          allocated := allocated st @ [ports st],
          commands := commands st @ [(Join [t, version (vps ! i)], [''-port'', localhostAddr (ports st)])],
          paths := (paths st)[i := ?vp]\<rparr>"
    by (rule launch_started)
  from p have len: "length (paths st) = length vps"
    and cnt: "ports st = 8080 + of_nat (length served)"
    and old: "\<And>j. j < length served \<Longrightarrow>
        paths st ! (served ! j) = (vps ! (served ! j))\<lparr>addr := localhostAddr (8080 + of_nat j)\<rparr>"
    and rest: "\<And>k. k < length vps \<Longrightarrow> k \<notin> set served \<Longrightarrow> paths st ! k = vps ! k"
    by (simp_all add: placed_def)
  have "(paths st)[i := ?vp] ! ((served @ [i]) ! j)
          = (vps ! ((served @ [i]) ! j))\<lparr>addr := localhostAddr (8080 + of_nat j)\<rparr>"
    if "j < length (served @ [i])" for j
  proof (cases "j < length served")
    case True
    then have "served ! j \<in> set served" by simp
    with i have "served ! j \<noteq> i" by auto
    with True old show ?thesis by (simp add: nth_append)
  next
    case False
    with that have "j = length served" by simp
    with i len cnt show ?thesis by simp
  qed
  moreover have "(paths st)[i := ?vp] ! k = vps ! k"
    if "k < length vps" "k \<notin> set (served @ [i])" for k
    using that rest by simp
  ultimately show ?thesis
    unfolding placed_def l using len cnt by simp
qed

lemma placed_runSchedule:
  assumes "placed vps served st" and "distinct (served @ sched)" and "set sched \<subseteq> {..<length vps}"
    and "errs (runSchedule os t vps sched st) = []"
  shows "placed vps (served @ sched) (runSchedule os t vps sched st)"
  using assms
proof (induction sched arbitrary: st served)
  case Nil
  then show ?case by simp
next
  case (Cons i sched)
  from Cons.prems(3) have i: "i < length vps" by simp
  from Cons.prems(2) have fresh: "i \<notin> set served" by simp
  let ?st = "launch os t i (vps ! i) st"
  from Cons.prems(4) i have fin: "errs (runSchedule os t vps sched ?st) = []" by simp
  then have ok1: "errs ?st = []"
    using runSchedule_errs_stay [of ?st os t vps sched] by blast
  then have ok0: "errs st = []"
    using launch_errs_grow [of os t i "vps ! i" st] by auto
  from Cons.prems(1) i fresh ok0 ok1 have "placed vps (served @ [i]) ?st"
    by (rule placed_launch)
  moreover from Cons.prems(2) have "distinct ((served @ [i]) @ sched)" by simp
  moreover from Cons.prems(3) have "set sched \<subseteq> {..<length vps}" by simp
  ultimately have "placed vps ((served @ [i]) @ sched) (runSchedule os t vps sched ?st)"
    using fin by (rule Cons.IH)
  with i show ?case by simp
qed

lemma foldl_mapping_other:
  "v \<notin> set (map version xs) \<Longrightarrow>
     foldl (\<lambda>m vp. m(version vp \<mapsto> addr vp)) m0 xs v = m0 v"
  by (induction xs arbitrary: m0) auto

lemma foldl_mapping_nth:
  "distinct (map version xs) \<Longrightarrow> i < length xs \<Longrightarrow>
     foldl (\<lambda>m vp. m(version vp \<mapsto> addr vp)) m0 xs (version (xs ! i)) = Some (addr (xs ! i))"
proof (induction xs arbitrary: m0 i)
  case Nil
  then show ?case by simp
next
  case (Cons x xs)
  show ?case
  proof (cases i)
    case 0
    from Cons.prems have "version x \<notin> set (map version xs)" by simp
    from foldl_mapping_other [OF this, of "m0(version x \<mapsto> addr x)"]
    have "foldl (\<lambda>m vp. m(version vp \<mapsto> addr vp)) (m0(version x \<mapsto> addr x)) xs (version x)
            = Some (addr x)"
      by (simp only: fun_upd_same)
    then show ?thesis
      by (simp only: 0 foldl_Cons nth_Cons_0)
  next
    case (Suc k)
    with Cons show ?thesis by simp
  qed
qed

text \<open>The entry of the \<open>j\<close>-th goroutine to reach the counter is mapped to port 8080 + j.\<close>

lemma New_addresses:
  assumes ex: "extractBinaries fs fs = Inr vps" and d: "distinct (map version vps)"
    and sc: "schedule (length vps) sched" and new: "New fs os sched = (m, None)"
    and j: "j < length vps"
  shows "versions m (version (vps ! (sched ! j))) = Some (localhostAddr (8080 + of_nat j))"
proof (cases rule: New_cases [where fs = fs and os = os and sched = sched])
  case (extract_failed err)
  with new show ?thesis by simp
next
  case (spawn_failed vps' err es)
  with new show ?thesis by simp
next
  case (launched vps')
  with ex have [simp]: "vps' = vps" by simp
  let ?st = "runSchedule os (TempDir os) vps sched (spawnInit vps)"
  from sc have ds: "distinct sched" and ss: "set sched = {..<length vps}"
    by (simp_all add: schedule_def)
  from ds ss have ls: "length sched = length vps"
    by (metis card_lessThan distinct_card)
  have "placed vps ([] @ sched) ?st"
    using placed_init launched(2) ds ss by (intro placed_runSchedule) simp_all
  then have len: "length (paths ?st) = length vps"
    and at: "\<And>k. k < length sched \<Longrightarrow>
        paths ?st ! (sched ! k) = (vps ! (sched ! k))\<lparr>addr := localhostAddr (8080 + of_nat k)\<rparr>"
    by (simp_all add: placed_def)
  from j ls ss have i: "sched ! j < length vps"
    by (metis lessThan_iff nth_mem)
  have vs: "map version (paths ?st) = map version vps"
    by (rule runSchedule_versions) (simp add: spawnInit_def)
  with d have "distinct (map version (paths ?st))" by simp
  from foldl_mapping_nth [OF this, of "sched ! j" Map.empty] i len
  have "foldl (\<lambda>m vp. m(version vp \<mapsto> addr vp)) Map.empty (paths ?st) (version (paths ?st ! (sched ! j)))
          = Some (addr (paths ?st ! (sched ! j)))"
    by simp
  moreover from at [of j] j ls
  have "paths ?st ! (sched ! j) = (vps ! (sched ! j))\<lparr>addr := localhostAddr (8080 + of_nat j)\<rparr>"
    by simp
  moreover from new launched(3)
  have "versions m = foldl (\<lambda>m vp. m(version vp \<mapsto> addr vp)) Map.empty (paths ?st)"
    by auto
  ultimately show ?thesis by simp
qed

subsection \<open>The port counter\<close>


lemma port_inj:
  assumes "a < 2 ^ 32" "b < 2 ^ 32" "(8080 + of_nat a :: 32 word) = 8080 + of_nat b"
  shows "a = b"
proof -
  from assms(3) have "(of_nat a :: 32 word) = of_nat b" by simp
  then have "take_bit 32 a = take_bit 32 b"
    by (simp add: word_of_nat_eq_iff)
  with assms(1,2) show ?thesis
    by (simp add: take_bit_nat_eq_self)
qed


lemma counted_command:
  "counted st \<Longrightarrow> i < length (allocated st) \<Longrightarrow>
     snd (commands st ! i) = [''-port'', localhostAddr (allocated st ! i)]"
proof -
  assume c: "counted st" and i: "i < length (allocated st)"
  from c have m: "map snd (commands st) = map (\<lambda>p. [''-port'', localhostAddr p]) (allocated st)"
    by (simp add: counted_def)
  then have "length (commands st) = length (allocated st)"
    by (metis length_map)
  with i have "snd (commands st ! i) = map snd (commands st) ! i" by simp
  with m i show ?thesis by simp
qed


subsection \<open>Launches that all succeed\<close>

lemma runSchedule_succeeds:
  assumes "\<forall>i < length vps.
      WriteFile os (Join [t, version (vps ! i)]) (bin (vps ! i)) = None
      \<and> (\<forall>a. Start os (Join [t, version (vps ! i)]) [''-port'', a] = None)"
  shows "errs (runSchedule os t vps sched st) = errs st
     \<and> length (allocated (runSchedule os t vps sched st))
         = length (allocated st) + length (filter (\<lambda>i. i < length vps) sched)"
proof (induction sched arbitrary: st)
  case Nil
  show ?case by simp
next
  case (Cons i sched)
  show ?case
  proof (cases "i < length vps")
    case False
    with Cons [of st] show ?thesis by simp
  next
    case True
    with assms have "WriteFile os (Join [t, version (vps ! i)]) (bin (vps ! i)) = None"
      and "Start os (Join [t, version (vps ! i)]) [''-port'', localhostAddr (ports st)] = None"
      by simp_all
    then have "launch os t i (vps ! i) st =
       st\<lparr>ports := ports st + 1,
          allocated := allocated st @ [ports st],
          commands := commands st @ [(Join [t, version (vps ! i)], [''-port'', localhostAddr (ports st)])],
          paths := (paths st)[i := (vps ! i)\<lparr>addr := localhostAddr (ports st)\<rparr>]\<rparr>"
      by (rule launch_started)
    with Cons [of "launch os t i (vps ! i) st"] True show ?thesis by simp
  qed
qed

lemma exampleOS_succeeds:
  "\<forall>i < length vps.
      WriteFile exampleOS (Join [t, version (vps ! i)]) (bin (vps ! i)) = None
      \<and> (\<forall>a. Start exampleOS (Join [t, version (vps ! i)]) [''-port'', a] = None)"
  by (simp add: exampleOS_def)

subsection \<open>The sequence of ports\<close>



subsection \<open>Completeness and distinctness\<close>

lemma schedule_length: "schedule n sched \<Longrightarrow> length sched = n"
  by (metis card_lessThan distinct_card schedule_def)

lemma schedule_nth: "schedule n sched \<Longrightarrow> i < n \<Longrightarrow> \<exists>j < n. sched ! j = i"
proof -
  assume s: "schedule n sched" and i: "i < n"
  then have "i \<in> set sched" by (simp add: schedule_def)
  then obtain j where "j < length sched" "sched ! j = i"
    by (auto simp: in_set_conv_nth)
  with schedule_length [OF s] show ?thesis by auto
qed

text \<open>
  Claim C5. Given \<open>N\<close> entries with distinct versions, every write and start
  succeeding, and any schedule of the launches: \<^const>\<open>New\<close> returns a mapping
  without an error, its keys are the versions of the entries, one entry per version,
  the entry of the \<open>j\<close>-th goroutine to reach the counter has the address of port
  8080 + \<open>j\<close>, no two versions have the same address, and the values the counter
  returned are distinct. \<open>N\<close> is at most \<open>2^32\<close>, the number of values of the
  \<^verbatim>\<open>int32\<close> counter, which is more entries than a bundle can have.
\<close>

theorem launch_complete_and_distinct:
  "extractBinaries fs fs = Inr vps \<and> distinct (map version vps) \<and> schedule (length vps) sched
   \<and> (\<forall>i < length vps.
          WriteFile os (Join [TempDir os, version (vps ! i)]) (bin (vps ! i)) = None
          \<and> (\<forall>a. Start os (Join [TempDir os, version (vps ! i)]) [''-port'', a] = None))
   \<and> length vps \<le> 2 ^ 32 \<longrightarrow>
   (\<exists>m. New fs os sched = (m, None)
      \<and> dom (versions m) = set (map version vps)
      \<and> card (dom (versions m)) = length vps
      \<and> (\<forall>j < length vps.
            versions m (version (vps ! (sched ! j))) = Some (localhostAddr (8080 + of_nat j)))
      \<and> inj_on (versions m) (dom (versions m)))
   \<and> distinct (allocated (runSchedule os (TempDir os) vps sched (spawnInit vps)))"
proof (intro impI, elim conjE)
  let ?st = "runSchedule os (TempDir os) vps sched (spawnInit vps)"
  assume ex: "extractBinaries fs fs = Inr vps" and d: "distinct (map version vps)"
    and sc: "schedule (length vps) sched" and bound: "length vps \<le> 2 ^ 32"
    and ok: "\<forall>i < length vps.
          WriteFile os (Join [TempDir os, version (vps ! i)]) (bin (vps ! i)) = None
          \<and> (\<forall>a. Start os (Join [TempDir os, version (vps ! i)]) [''-port'', a] = None)"
  from sc have ls: "length sched = length vps" by (rule schedule_length)
  from sc have "filter (\<lambda>i. i < length vps) sched = sched"
    by (intro filter_True) (simp add: schedule_def)
  with runSchedule_succeeds [OF ok, where sched = sched and st = "spawnInit vps"] ls
  have e: "errs ?st = []" and al: "length (allocated ?st) = length vps"
    by (simp_all add: spawnInit_def)
  from ex e obtain m where new: "New fs os sched = (m, None)"
    and m: "versions m = foldl (\<lambda>m vp. m(version vp \<mapsto> addr vp)) Map.empty (paths ?st)"
    by (cases rule: New_cases [where fs = fs and os = os and sched = sched]) simp_all
  have "map version (paths ?st) = map version vps"
    by (rule runSchedule_versions) (simp add: spawnInit_def)
  with m have dm: "dom (versions m) = set (map version vps)"
    by (simp only: foldl_mapping_dom dom_empty Un_empty_left)
  with d have cd: "card (dom (versions m)) = length vps"
    by (metis distinct_card length_map)
  have at: "versions m (version (vps ! (sched ! j))) = Some (localhostAddr (8080 + of_nat j))"
    if "j < length vps" for j
    using ex d sc new that by (rule New_addresses)
  have inj: "inj_on (versions m) (dom (versions m))"
  proof (rule inj_onI)
    fix v w
    assume v: "v \<in> dom (versions m)" and w: "w \<in> dom (versions m)"
      and eq: "versions m v = versions m w"
    from v dm obtain i where i: "i < length vps" "v = version (vps ! i)"
      by (auto simp: in_set_conv_nth)
    from w dm obtain k where k: "k < length vps" "w = version (vps ! k)"
      by (auto simp: in_set_conv_nth)
    from schedule_nth [OF sc i(1)] obtain j where j: "j < length vps" "sched ! j = i" by auto
    from schedule_nth [OF sc k(1)] obtain l where l: "l < length vps" "sched ! l = k" by auto
    from at [OF j(1)] at [OF l(1)] eq i k j l
    have "localhostAddr (8080 + of_nat j) = localhostAddr (8080 + of_nat l)" by simp
    then have "(8080 + of_nat j :: 32 word) = 8080 + of_nat l" by (rule localhostAddr_inj)
    with j(1) l(1) bound have "j = l" by (intro port_inj) simp_all
    with i k j l show "v = w" by simp
  qed
  have "counted ?st"
    by (simp add: runSchedule_counted counted_init)
  then have "allocated ?st = map (\<lambda>k. 8080 + of_nat k) [0..<length vps]"
    using al by (simp add: counted_def)
  moreover have "inj_on (\<lambda>k. (8080 + of_nat k :: 32 word)) (set [0..<length vps])"
    using bound by (intro inj_onI port_inj) simp_all
  ultimately have da: "distinct (allocated ?st)"
    by (simp add: distinct_map)
  from new dm cd at inj da
  show "(\<exists>m. New fs os sched = (m, None)
      \<and> dom (versions m) = set (map version vps)
      \<and> card (dom (versions m)) = length vps
      \<and> (\<forall>j < length vps.
            versions m (version (vps ! (sched ! j))) = Some (localhostAddr (8080 + of_nat j)))
      \<and> inj_on (versions m) (dom (versions m)))
   \<and> distinct (allocated ?st)"
    by blast
qed

theorem launch_complete_and_distinct_witness:
  "extractBinaries exampleFS exampleFS =
     Inr [\<lparr>version = ''1.0.0'', bin = ''binary of 1.0.0'', addr = []\<rparr>,
          \<lparr>version = ''1.1.0'', bin = ''binary of 1.1.0'', addr = []\<rparr>]
   \<and> distinct [''1.0.0'', ''1.1.0'']
   \<and> schedule 2 [1, 0]
   \<and> (2 :: nat) \<le> 2 ^ 32
   \<and> (\<exists>m. New exampleFS exampleOS [1, 0] = (m, None)
        \<and> dom (versions m) = {''1.0.0'', ''1.1.0''}
        \<and> card (dom (versions m)) = 2
        \<and> versions m ''1.1.0'' = Some (localhostAddr 8080)
        \<and> versions m ''1.0.0'' = Some (localhostAddr 8081)
        \<and> inj_on (versions m) (dom (versions m)))"
proof -
  let ?vps = "[\<lparr>version = ''1.0.0'', bin = ''binary of 1.0.0'', addr = []\<rparr>,
          \<lparr>version = ''1.1.0'', bin = ''binary of 1.1.0'', addr = []\<rparr>]"
  have h2: "distinct (map version ?vps)" and h2': "distinct [''1.0.0'', ''1.1.0'']"
    by simp_all
  have h3: "schedule (length ?vps) [1, 0]" and h3': "schedule 2 [1, 0]"
    by (auto simp: schedule_def)
  have h4: "length ?vps \<le> 2 ^ 32" and h4': "(2 :: nat) \<le> 2 ^ 32"
    by simp_all
  note t = launch_complete_and_distinct [where fs = exampleFS and os = exampleOS
      and sched = "[1, 0]" and vps = ?vps]
  from t exampleFS_extract h2 h3 h4 exampleOS_succeeds [of ?vps "TempDir exampleOS"]
  obtain m where m: "New exampleFS exampleOS [1, 0] = (m, None)"
      "dom (versions m) = set (map version ?vps)"
      "card (dom (versions m)) = length ?vps"
      "\<forall>j < length ?vps.
          versions m (version (?vps ! ([1, 0] ! j))) = Some (localhostAddr (8080 + of_nat j))"
      "inj_on (versions m) (dom (versions m))"
    by blast
  from m(4) [rule_format, of 0] have a: "versions m ''1.1.0'' = Some (localhostAddr 8080)"
    by simp
  from m(4) [rule_format, of 1] have b: "versions m ''1.0.0'' = Some (localhostAddr 8081)"
    by simp
  from m(2) have c: "dom (versions m) = {''1.0.0'', ''1.1.0''}" by simp
  from m(3) have d: "card (dom (versions m)) = 2" by simp
  from m(1) c d a b m(5)
  have "\<exists>m. New exampleFS exampleOS [1, 0] = (m, None)
        \<and> dom (versions m) = {''1.0.0'', ''1.1.0''}
        \<and> card (dom (versions m)) = 2
        \<and> versions m ''1.1.0'' = Some (localhostAddr 8080)
        \<and> versions m ''1.0.0'' = Some (localhostAddr 8081)
        \<and> inj_on (versions m) (dom (versions m))"
    by blast
  with exampleFS_extract h2' h3' h4' show ?thesis
    by (intro conjI)
qed



end
